theory Spec2Isabelle
  imports Main "HOL-Library.Word"
begin

unbundle bit_operations_syntax

section \<open>Data model\<close>

text \<open>
  A Python \<open>bytes\<close> object is an immutable sequence of integers in \<open>0..255\<close>: a list of
  8-bit words. Every other Python integer is unbounded: an \<open>int\<close>.
\<close>

type_synonym byte = "8 word"

text \<open>
  The exception classes of \<open>unpacker.py\<close> that are raised, and the two exceptions
  of the Python runtime that the code can raise without declaring them: \<open>struct.error\<close>
  (a value that does not fit its format, a read outside the buffer) and \<open>IndexError\<close>.
\<close>

datatype error =
    IncompleteSotESResourceError
  | SotESResourceValidationError
  | InvalidBitmapError
  | UnsupportedBitmapError
  | UnsupportedFunctionError
  | StructError
  | IndexError

definition and_then :: "error + 'a \<Rightarrow> ('a \<Rightarrow> error + 'b) \<Rightarrow> error + 'b" where
  "and_then m f = (case m of Inl e \<Rightarrow> Inl e | Inr v \<Rightarrow> f v)"

section \<open>The Python runtime: slices, \<open>bytes\<close>, \<open>struct\<close>\<close>

text \<open>\<open>xs[i:j]\<close>: a negative bound counts from the end, and both bounds are clamped.\<close>

definition py_slice :: "'a list \<Rightarrow> int \<Rightarrow> int \<Rightarrow> 'a list" where
  "py_slice xs i j =
     (let n = int (length xs);
          lo = (if i < 0 then max (i + n) 0 else min i n);
          hi = (if j < 0 then max (j + n) 0 else min j n)
      in take (nat (hi - lo)) (drop (nat lo) xs))"

text \<open>\<open>xs[3::4]\<close>: the last element of every complete group of four.\<close>

fun slice_3_4 :: "'a list \<Rightarrow> 'a list" where
  "slice_3_4 (a # b # c # d # xs) = d # slice_3_4 xs"
| "slice_3_4 xs = []"

text \<open>\<open>xs[i]\<close> for an index that is never negative in this program.\<close>

definition py_index :: "'a list \<Rightarrow> nat \<Rightarrow> error + 'a" where
  "py_index xs i = (if i < length xs then Inr (xs ! i) else Inl IndexError)"

text \<open>\<open>bytes(n)\<close>: \<open>n\<close> zero bytes.\<close>

definition bytes :: "nat \<Rightarrow> byte list" where
  "bytes n = replicate n 0"

text \<open>\<open>b.ljust(n)\<close>: the fill byte defaults to an ASCII space.\<close>

definition ljust :: "byte list \<Rightarrow> nat \<Rightarrow> byte list" where
  "ljust b n = b @ replicate (n - length b) 0x20"

text \<open>Little-endian byte strings (the byte order of the platforms the tool runs on).\<close>

fun from_le :: "byte list \<Rightarrow> int" where
  "from_le [] = 0"
| "from_le (b # bs) = uint b + 256 * from_le bs"

fun to_le :: "nat \<Rightarrow> int \<Rightarrow> byte list" where
  "to_le 0 v = []"
| "to_le (Suc n) v = word_of_int v # to_le n (v div 256)"

text \<open>
  A format character of \<open>struct\<close>: an unsigned (\<open>B\<close>, \<open>H\<close>, \<open>I\<close>, \<open>L\<close>) or signed
  (\<open>i\<close>, \<open>l\<close>) integer of a number of bytes.
\<close>

datatype fmt = Unsigned nat | Signed nat

abbreviation "fmt_B \<equiv> Unsigned 1"
abbreviation "fmt_H \<equiv> Unsigned 2"
abbreviation "fmt_I \<equiv> Unsigned 4"
abbreviation "fmt_L \<equiv> Unsigned 4"
abbreviation "fmt_i \<equiv> Signed 4"
abbreviation "fmt_l \<equiv> Signed 4"

fun fmt_size :: "fmt \<Rightarrow> nat" where
  "fmt_size (Unsigned n) = n"
| "fmt_size (Signed n) = n"

text \<open>\<open>struct.pack\<close> of one integer: \<open>struct.error\<close> when it is out of the format's range.\<close>

fun pack_field :: "fmt \<Rightarrow> int \<Rightarrow> error + byte list" where
  "pack_field (Unsigned n) v =
     (if 0 \<le> v \<and> v < 256 ^ n then Inr (to_le n v) else Inl StructError)"
| "pack_field (Signed n) v =
     (if - (256 ^ n div 2) \<le> v \<and> v < 256 ^ n div 2 then Inr (to_le n v) else Inl StructError)"

text \<open>\<open>struct.pack\<close> of several integers: as many arguments as format characters.\<close>

fun struct_pack :: "fmt list \<Rightarrow> int list \<Rightarrow> error + byte list" where
  "struct_pack [] [] = Inr []"
| "struct_pack (f # fs) (v # vs) =
     and_then (pack_field f v) (\<lambda>b.
     and_then (struct_pack fs vs) (\<lambda>bs. Inr (b @ bs)))"
| "struct_pack fs vs = Inl StructError"

fun decode_field :: "fmt \<Rightarrow> byte list \<Rightarrow> int" where
  "decode_field (Unsigned n) bs = from_le bs"
| "decode_field (Signed n) bs =
     (if from_le bs < 256 ^ n div 2 then from_le bs else from_le bs - 256 ^ n)"

text \<open>
  \<open>struct.unpack_from(f, buffer, offset)[0]\<close> for a single format character. A negative
  offset counts from the end of the buffer; \<open>struct.error\<close> when the field does not lie
  inside the buffer.
\<close>

definition unpack_from :: "fmt \<Rightarrow> byte list \<Rightarrow> int \<Rightarrow> error + int" where
  "unpack_from f buffer offset =
     (let len = int (length buffer); sz = int (fmt_size f) in
      if offset < 0 \<and> offset + sz > 0 then Inl StructError
      else if offset < 0 \<and> offset + len < 0 then Inl StructError
      else
        let off = (if offset < 0 then offset + len else offset) in
        if len - off < sz then Inl StructError
        else Inr (decode_field f (take (fmt_size f) (drop (nat off) buffer))))"

section \<open>\<open>unpack\<close>\<close>

text \<open>Resource identification step.\<close>

definition identify :: "byte list \<Rightarrow> error + (int \<times> int)" where
  "identify resource_data =
     (if length resource_data < 0x458 then Inl IncompleteSotESResourceError
      else
        and_then (unpack_from fmt_I resource_data 0x448) (\<lambda>obf_key.
        and_then (unpack_from fmt_I resource_data 0x438) (\<lambda>val_raw.
        and_then (unpack_from fmt_I resource_data 0x450) (\<lambda>pix_off_raw.
        let val_key = val_raw - obf_key;
            pix_off_key = pix_off_raw - obf_key
        in if val_key \<noteq> 10001 \<or> pix_off_key > 128 then Inl SotESResourceValidationError
           else Inr (obf_key, pix_off_key)))))"

text \<open>Retrieve bitmap dimensions.\<close>

definition dimensions :: "byte list \<Rightarrow> int \<Rightarrow> bool \<Rightarrow> error + (int \<times> int)" where
  "dimensions resource_data obf_key additional_checks =
     and_then (unpack_from fmt_I resource_data 0x440) (\<lambda>width_raw.
     and_then (unpack_from fmt_I resource_data 0x018) (\<lambda>height_raw.
     let width_key = width_raw - obf_key;
         height_key = height_raw - obf_key;
         width_off = 4 * width_key + 0x004;
         height_off = 4 * height_key + 0x420
     in if int (length resource_data) \<le> max width_off height_off + 4
        then Inl IncompleteSotESResourceError
        else
          and_then (unpack_from fmt_i resource_data width_off) (\<lambda>w.
          and_then (unpack_from fmt_i resource_data height_off) (\<lambda>h.
          let img_width = w - obf_key;
              img_height = h - obf_key
          in if additional_checks \<and> img_width \<le> 0 then Inl InvalidBitmapError
             else if additional_checks \<and> img_height = 0 then Inl InvalidBitmapError
             else Inr (img_width, img_height)))))"

text \<open>Retrieve color depth.\<close>

definition color_depth :: "byte list \<Rightarrow> int \<Rightarrow> bool \<Rightarrow> error + int" where
  "color_depth resource_data obf_key additional_checks =
     and_then (unpack_from fmt_H resource_data 0x430) (\<lambda>depth_raw.
     let img_color_depth = depth_raw - (obf_key AND 0xFFFF)
     in if additional_checks \<and> img_color_depth \<notin> {1, 4, 8, 16, 24, 32}
        then Inl InvalidBitmapError
        else Inr img_color_depth)"

text \<open>Retrieve color table: the table and the number of palette colors to declare.\<close>

definition color_table :: "byte list \<Rightarrow> int \<Rightarrow> bool \<Rightarrow> error + (byte list \<times> int)" where
  "color_table resource_data img_color_depth always_include_palette =
     (if img_color_depth = 8 then Inr (py_slice resource_data 0x20 0x420, 0)
      else if img_color_depth = 24 then
        (if \<not> always_include_palette then Inr ([], 0)
         else Inr (py_slice resource_data 0x20 0x420, 256))
      else Inl UnsupportedBitmapError)"

text \<open>Validate "alpha" channel in color table: the loop over \<open>img_color_table[3::4]\<close>.\<close>

fun validate_alpha :: "byte list \<Rightarrow> error + unit" where
  "validate_alpha [] = Inr ()"
| "validate_alpha (alpha_byte # rest) =
     (if alpha_byte \<noteq> 0x00 then Inl InvalidBitmapError else validate_alpha rest)"

text \<open>Retrieve pixel array.\<close>

definition pixel_array :: "byte list \<Rightarrow> int \<Rightarrow> int \<Rightarrow> int \<Rightarrow> int \<Rightarrow> error + byte list" where
  "pixel_array resource_data pix_off_key img_color_depth img_width img_height =
     (let img_pix_off = 0x458 + pix_off_key;
          img_pix_size = img_color_depth div 8 * \<bar>img_width\<bar> * \<bar>img_height\<bar>
      in if int (length resource_data) < img_pix_off + img_pix_size
         then Inl IncompleteSotESResourceError
         else
           let pix_row_raw_size = img_color_depth div 8 * \<bar>img_width\<bar>;
               pix_row_padding = bytes (nat ((- pix_row_raw_size) mod 4));
               pix_rows = map (\<lambda>pix_row_i.
                  let pix_row_off = img_pix_off + int pix_row_i * pix_row_raw_size
                  in py_slice resource_data pix_row_off (pix_row_off + pix_row_raw_size)
                       @ pix_row_padding) [0..<nat \<bar>img_height\<bar>];
               pix_rows' = (if \<bar>img_height\<bar> < 0 then rev pix_rows else pix_rows)
           in Inr (concat pix_rows'))"

text \<open>Build bitmap: \<open>'<2sL2HL'\<close> and \<open>'<L2l2H2L2l2L'\<close>.\<close>

definition build_bitmap ::
  "int \<Rightarrow> int \<Rightarrow> int \<Rightarrow> byte list \<Rightarrow> int \<Rightarrow> byte list \<Rightarrow> error + byte list" where
  "build_bitmap img_width img_height img_color_depth img_color_table img_num_colors img_pix_array =
     and_then (struct_pack [fmt_L, fmt_H, fmt_H, fmt_L]
        [0x0E + 0x28 + int (length img_color_table) + int (length img_pix_array),
         0x00, 0x00,
         0x0E + 0x28 + int (length img_color_table)]) (\<lambda>fields.
     let bmp_header = [0x42, 0x4D] @ fields in
     and_then (struct_pack
        [fmt_L, fmt_l, fmt_l, fmt_H, fmt_H, fmt_L, fmt_L, fmt_l, fmt_l, fmt_L, fmt_L]
        [0x28,
         \<bar>img_width\<bar>,
         \<bar>img_height\<bar>,
         0x01,
         img_color_depth,
         0x00,
         int (length img_pix_array),
         0x00,
         0x00,
         img_num_colors,
         0x00]) (\<lambda>dib_header.
     Inr (bmp_header @ dib_header @ img_color_table @ img_pix_array)))"

definition unpack :: "byte list \<Rightarrow> bool \<Rightarrow> bool \<Rightarrow> error + byte list" where
  "unpack resource_data additional_checks always_include_palette =
     and_then (identify resource_data) (\<lambda>(obf_key, pix_off_key).
     and_then (dimensions resource_data obf_key additional_checks) (\<lambda>(img_width, img_height).
     and_then (color_depth resource_data obf_key additional_checks) (\<lambda>img_color_depth.
     and_then (color_table resource_data img_color_depth always_include_palette)
       (\<lambda>(img_color_table, img_num_colors).
     and_then (if additional_checks then validate_alpha (slice_3_4 img_color_table) else Inr ())
       (\<lambda>_.
     and_then (pixel_array resource_data pix_off_key img_color_depth img_width img_height)
       (\<lambda>img_pix_array.
     build_bitmap img_width img_height img_color_depth img_color_table img_num_colors
       img_pix_array))))))"

section \<open>\<open>pack\<close>\<close>

text \<open>
  \<open>pack\<close> opens its input with the Pillow library, which is not part of the repository:
  the opened image is a parameter. \<open>pil_mode\<close> is \<open>pil_img.mode\<close> (and
  \<open>pil_img.palette.mode\<close>), \<open>img_size\<close> is \<open>pil_img.size\<close>, \<open>getpalette\<close> the list
  \<open>[R, G, B, R, G, B, ...]\<close>, and \<open>getdata\<close> gives palette indices for mode \<open>P\<close>
  and \<open>(R, G, B)\<close> triples for mode \<open>RGB\<close>.
\<close>

datatype pil_mode = P | RGB | OtherMode

record pil_image =
  img_size :: "nat \<times> nat"
  mode :: pil_mode
  palette_mode :: pil_mode
  getpalette :: "int list"
  getdata_P :: "int list"
  getdata_RGB :: "(int \<times> int \<times> int) list"

text \<open>The results of a loop body that can raise, in order: the first error ends the loop.\<close>

fun collect :: "(error + 'a) list \<Rightarrow> error + 'a list" where
  "collect [] = Inr []"
| "collect (x # xs) = and_then x (\<lambda>v. and_then (collect xs) (\<lambda>vs. Inr (v # vs)))"

text \<open>\<open>range(0, n, 3)\<close>.\<close>

definition range_step_3 :: "nat \<Rightarrow> nat list" where
  "range_step_3 n = map (\<lambda>k. 3 * k) [0..<(n + 2) div 3]"

text \<open>Build color table (mode \<open>P\<close>): colors stored as BGR0, left-justified to \<open>0x400\<close> bytes.\<close>

definition build_color_table :: "int list \<Rightarrow> error + byte list" where
  "build_color_table pil_palette =
     and_then (collect (map (\<lambda>color_offset.
        and_then (py_index pil_palette (color_offset + 2)) (\<lambda>c2.
        and_then (py_index pil_palette (color_offset + 1)) (\<lambda>c1.
        and_then (py_index pil_palette color_offset) (\<lambda>c0.
        struct_pack [fmt_B, fmt_B, fmt_B, fmt_B] [c2, c1, c0, 0x00]))))
        (range_step_3 (length pil_palette)))) (\<lambda>entries.
     Inr (ljust (concat entries) 0x400))"

text \<open>Build pixel array (mode \<open>P\<close>): one byte per pixel, rows reversed (bottom-up).\<close>

definition pixel_rows_P :: "nat \<Rightarrow> nat \<Rightarrow> int list \<Rightarrow> error + byte list" where
  "pixel_rows_P img_width img_height pil_pixels =
     (let pil_row_size = img_width in
      and_then (collect (map (\<lambda>row_index.
         let pil_row_offset = row_index * pil_row_size in
         struct_pack (replicate img_width fmt_B)
           (py_slice pil_pixels (int pil_row_offset) (int (pil_row_offset + pil_row_size))))
         [0..<img_height])) (\<lambda>img_pixel_rows.
      Inr (concat (rev img_pixel_rows))))"

text \<open>Pixel array (mode \<open>RGB\<close>): channels in BGR order, rows reversed (bottom-up).\<close>

definition pixel_rows_RGB :: "nat \<Rightarrow> nat \<Rightarrow> (int \<times> int \<times> int) list \<Rightarrow> error + byte list" where
  "pixel_rows_RGB img_width img_height pil_pixels =
     (let pil_row_size = img_width in
      and_then (collect (map (\<lambda>row_index.
         let pil_row_offset = row_index * pil_row_size in
         and_then (collect (map (\<lambda>pixel_index.
            and_then (py_index pil_pixels (pil_row_offset + pixel_index)) (\<lambda>(r, g, b).
            Inr [b, g, r])) [0..<img_width])) (\<lambda>img_pixel_row.
         struct_pack (replicate (3 * img_width) fmt_B) (concat img_pixel_row)))
         [0..<img_height])) (\<lambda>img_pixel_rows.
      Inr (concat (rev img_pixel_rows))))"

text \<open>The encrypted format: junk and metadata around the palette, then the pixel array.\<close>

definition assemble :: "nat \<Rightarrow> nat \<Rightarrow> int \<Rightarrow> byte list \<Rightarrow> byte list \<Rightarrow> error + byte list" where
  "assemble img_width img_height img_color_depth img_palette img_pixels =
     and_then (struct_pack [fmt_i] [int img_width]) (\<lambda>width_bytes.
     and_then (struct_pack [fmt_i] [int img_height]) (\<lambda>height_bytes.
     and_then (struct_pack [fmt_H] [img_color_depth]) (\<lambda>depth_bytes.
     and_then (struct_pack [fmt_I] [10001]) (\<lambda>val_bytes.
     Inr (concat
       [bytes 0x04,
        width_bytes,
        bytes 0x18,
        img_palette,
        height_bytes,
        bytes 0x0C,
        depth_bytes,
        bytes 0x06,
        val_bytes,
        bytes 0x1C,
        img_pixels])))))"

definition pack_image :: "pil_image \<Rightarrow> error + byte list" where
  "pack_image pil_img =
     (case img_size pil_img of (img_width, img_height) \<Rightarrow>
      if mode pil_img = P then
        (if palette_mode pil_img \<noteq> RGB then Inl UnsupportedBitmapError
         else
           let pil_palette = getpalette pil_img in
           if length pil_palette > 3 * 256 then Inl UnsupportedBitmapError
           else
             and_then (build_color_table pil_palette) (\<lambda>img_palette.
             and_then (pixel_rows_P img_width img_height (getdata_P pil_img)) (\<lambda>img_pixels.
             assemble img_width img_height 8 img_palette img_pixels)))
      else if mode pil_img = RGB then
        and_then (pixel_rows_RGB img_width img_height (getdata_RGB pil_img)) (\<lambda>img_pixels.
        assemble img_width img_height 24 (bytes 0x400) img_pixels)
      else Inl UnsupportedBitmapError)"

text \<open>
  \<open>pack\<close>: \<open>PIL_AVAILABLE\<close> is the module's flag, and \<open>opened\<close> is what \<open>Image.open\<close>
  gives for the input bytes (\<open>None\<close> when it raises \<open>UnidentifiedImageError\<close>).
\<close>

definition pack :: "bool \<Rightarrow> pil_image option \<Rightarrow> error + byte list" where
  "pack PIL_AVAILABLE opened =
     (if \<not> PIL_AVAILABLE then Inl UnsupportedFunctionError
      else case opened of
        None \<Rightarrow> Inl InvalidBitmapError
      | Some pil_img \<Rightarrow> pack_image pil_img)"

text \<open>
  The byte layout of a resource, by the stored value of each field: the fields at
  \<open>0x004\<close> and \<open>0x018\<close>, the color table at \<open>0x020\<close>, the fields at \<open>0x420\<close>, \<open>0x430\<close>
  (16 bits), \<open>0x438\<close>, \<open>0x440\<close>, \<open>0x448\<close> and \<open>0x450\<close>, and the bytes from \<open>0x458\<close> on.
  It is used to write down concrete resources.
\<close>

definition layout ::
  "int \<Rightarrow> int \<Rightarrow> byte list \<Rightarrow> int \<Rightarrow> int \<Rightarrow> int \<Rightarrow> int \<Rightarrow> int \<Rightarrow> int \<Rightarrow> byte list \<Rightarrow> byte list" where
  "layout f004 f018 table f420 f430 f438 f440 f448 f450 pixels =
     bytes 4 @ to_le 4 f004 @ bytes 0x10 @ to_le 4 f018 @ bytes 4 @ table @
     to_le 4 f420 @ bytes 0xC @ to_le 2 f430 @ bytes 6 @ to_le 4 f438 @ bytes 4 @
     to_le 4 f440 @ bytes 4 @ to_le 4 f448 @ bytes 4 @ to_le 4 f450 @ bytes 4 @ pixels"

section \<open>Concrete resources\<close>

text \<open>
  A 4 by 4 resource of depth 8 under the obfuscation key \<open>0x1000\<close>, with both index
  fields resolving to the base offsets, and the bitmap it decodes to.
\<close>

definition resource_8bpp :: "byte list" where
  "resource_8bpp =
     layout (0x1000 + 4) 0x1000 (bytes 0x400) (0x1000 + 4) (0x1000 + 8) (0x1000 + 10001)
       0x1000 0x1000 0x1000 [1, 2, 3, 4, 5, 6, 7, 8, 9, 10, 11, 12, 13, 14, 15, 16]"

definition bitmap_8bpp :: "byte list" where
  "bitmap_8bpp =
     [0x42, 0x4D, 0x46, 0x04, 0, 0, 0, 0, 0, 0, 0x36, 0x04, 0, 0,
      0x28, 0, 0, 0, 4, 0, 0, 0, 4, 0, 0, 0, 1, 0, 8, 0, 0, 0, 0, 0, 0x10, 0, 0, 0,
      0, 0, 0, 0, 0, 0, 0, 0, 0, 0, 0, 0, 0, 0, 0, 0] @
     bytes 0x400 @
     [1, 2, 3, 4, 5, 6, 7, 8, 9, 10, 11, 12, 13, 14, 15, 16]"

text \<open>The same header with depth 16 (and no pixel data).\<close>

definition resource_16bpp :: "byte list" where
  "resource_16bpp =
     layout (0x1000 + 4) 0x1000 (bytes 0x400) (0x1000 + 4) (0x1000 + 16) (0x1000 + 10001)
       0x1000 0x1000 0x1000 []"




text \<open>
  A 4 by 4 resource of depth 8 under the key 1 whose pixel-offset field at \<open>0x450\<close> is 0,
  less than the key, and the bitmap it decodes to.
\<close>

definition resource_underflow :: "byte list" where
  "resource_underflow =
     layout 5 1 (bytes 0x400) 5 9 10002 1 1 0
       [1, 2, 3, 4, 5, 6, 7, 8, 9, 10, 11, 12, 13, 14, 15]"

definition bitmap_underflow :: "byte list" where
  "bitmap_underflow =
     [0x42, 0x4D, 0x46, 0x04, 0, 0, 0, 0, 0, 0, 0x36, 0x04, 0, 0,
      0x28, 0, 0, 0, 4, 0, 0, 0, 4, 0, 0, 0, 1, 0, 8, 0, 0, 0, 0, 0, 0x10, 0, 0, 0,
      0, 0, 0, 0, 0, 0, 0, 0, 0, 0, 0, 0, 0, 0, 0, 0] @
     bytes 0x400 @
     [0, 1, 2, 3, 4, 5, 6, 7, 8, 9, 10, 11, 12, 13, 14, 15]"

text \<open>
  A resource under the key 2000 whose width-index field at \<open>0x440\<close> is 0, less than the
  key.
\<close>

definition resource_far_index :: "byte list" where
  "resource_far_index = layout 2004 2000 (bytes 0x400) 2004 2008 12001 0 2000 2000 []"

text \<open>
  A 4 by 1 resource of depth 8 under the key 1114 whose pixel-offset field is 0, so that
  the pixel array starts at \<open>0x458 - 1114 = -2\<close>; it has no bytes after the header. And
  the bitmap it decodes to.
\<close>

definition resource_before_start :: "byte list" where
  "resource_before_start = layout 1118 1114 (bytes 0x400) 1115 1122 11115 1114 1114 0 []"

definition bitmap_no_pixels :: "byte list" where
  "bitmap_no_pixels =
     [0x42, 0x4D, 0x36, 0x04, 0, 0, 0, 0, 0, 0, 0x36, 0x04, 0, 0,
      0x28, 0, 0, 0, 4, 0, 0, 0, 1, 0, 0, 0, 1, 0, 8, 0, 0, 0, 0, 0, 0, 0, 0, 0,
      0, 0, 0, 0, 0, 0, 0, 0, 0, 0, 0, 0, 0, 0, 0, 0] @
     bytes 0x400"

text \<open>
  A 4 by 4 image of mode \<open>P\<close> with a palette of two colors, red and blue (a palette that is
  not a grey ramp, so that the image stays of mode \<open>P\<close>), the color table \<open>pack\<close> builds
  for it, and the resource \<open>pack\<close> returns.
\<close>

definition image_red_blue :: pil_image where
  "image_red_blue =
     \<lparr>img_size = (4, 4), mode = P, palette_mode = RGB,
      getpalette = [255, 0, 0, 0, 0, 255],
      getdata_P = [0, 1, 0, 1, 1, 0, 1, 0, 0, 0, 1, 1, 1, 1, 0, 0],
      getdata_RGB = []\<rparr>"

definition table_red_blue :: "byte list" where
  "table_red_blue = [0, 0, 255, 0, 255, 0, 0, 0] @ replicate 1016 0x20"

definition resource_red_blue :: "byte list" where
  "resource_red_blue =
     layout 4 0 table_red_blue 4 8 10001 0 0 0
       [1, 1, 0, 0, 0, 0, 1, 1, 1, 0, 1, 0, 0, 1, 0, 1]"

text \<open>
  A 4 by 4 resource under the key \<open>0xFFF0\<close> whose 16-bit depth field is 0: the depth 16
  plus the low 16 bits of the key, in 16 bits.
\<close>

definition resource_depth_wrap :: "byte list" where
  "resource_depth_wrap =
     layout 65524 65520 (bytes 0x400) 65524 0 75521 65520 65520 65520 []"


section \<open>Byte strings and reads\<close>

lemma length_to_le: "length (to_le n v) = n"
  by (induction n arbitrary: v) auto

lemma length_bytes: "length (bytes n) = n"
  by (simp add: bytes_def)

lemma from_le_to_le: "from_le (to_le n v) = v mod 256 ^ n"
proof (induction n arbitrary: v)
  case 0
  show ?case by simp
next
  case (Suc n)
  have "uint (word_of_int v :: byte) = v mod 256"
    by (simp add: uint_word_of_int take_bit_eq_mod)
  then have "from_le (to_le (Suc n) v) = v mod 256 + 256 * ((v div 256) mod 256 ^ n)"
    using Suc.IH by simp
  also have "\<dots> = v mod 256 ^ Suc n"
    using zmod_zmult2_eq [of "256 ^ n" v 256] by simp
  finally show ?case .
qed

lemma from_le_bounds: "0 \<le> from_le bs \<and> from_le bs < 256 ^ length bs"
proof (induction bs)
  case Nil
  show ?case by simp
next
  case (Cons b bs)
  have "0 \<le> uint b" "uint b < 256"
    using uint_bounded [of b] by simp_all
  with Cons show ?case by simp
qed

lemma from_le_replicate_0: "from_le (replicate n 0) = 0"
  by (induction n) auto

lemma unpack_from_inside:
  "0 \<le> off \<Longrightarrow> off + int (fmt_size f) \<le> int (length b) \<Longrightarrow>
   unpack_from f b off = Inr (decode_field f (take (fmt_size f) (drop (nat off) b)))"
  by (simp add: unpack_from_def Let_def)

lemma length_layout:
  "length table = 0x400 \<Longrightarrow>
   length (layout f004 f018 table f420 f430 f438 f440 f448 f450 pixels) = 0x458 + length pixels"
  by (simp add: layout_def length_bytes length_to_le)

lemma layout_fields:
  assumes "length table = 0x400"
    and L: "L = layout f004 f018 table f420 f430 f438 f440 f448 f450 pixels"
  shows "take 4 (drop 0x004 L) = to_le 4 f004"
    and "take 4 (drop 0x018 L) = to_le 4 f018"
    and "take 4 (drop 0x420 L) = to_le 4 f420"
    and "take 2 (drop 0x430 L) = to_le 2 f430"
    and "take 4 (drop 0x438 L) = to_le 4 f438"
    and "take 4 (drop 0x440 L) = to_le 4 f440"
    and "take 4 (drop 0x448 L) = to_le 4 f448"
    and "take 4 (drop 0x450 L) = to_le 4 f450"
    and "take 0x400 (drop 0x20 L) = table"
    and "drop 0x458 L = pixels"
  using assms(1) by (simp_all add: L layout_def length_bytes length_to_le)

section \<open>The stages of \<open>unpack\<close>\<close>

lemma identify_short:
  "length b < 0x458 \<Longrightarrow> identify b = Inl IncompleteSotESResourceError"
  by (simp add: identify_def)

lemma identify_long:
  "\<not> length b < 0x458 \<Longrightarrow>
   identify b =
     (let obf_key = from_le (take 4 (drop 0x448 b));
          val_key = from_le (take 4 (drop 0x438 b)) - obf_key;
          pix_off_key = from_le (take 4 (drop 0x450 b)) - obf_key
      in if val_key \<noteq> 10001 \<or> pix_off_key > 128 then Inl SotESResourceValidationError
         else Inr (obf_key, pix_off_key))"
  by (simp add: identify_def unpack_from_inside and_then_def Let_def)

section \<open>Identification failures\<close>

text \<open>
  What the identification step does, with the subtraction the code performs, on unbounded
  integers: a buffer shorter than \<open>0x458\<close> bytes fails with the Incomplete error; a longer
  one whose validation field minus the key differs from 10001, or whose pixel-offset field
  minus the key exceeds 128, fails with the Validation error.
\<close>

lemma identification_failures_unbounded:
  "(length b < 0x458 \<longrightarrow> unpack b chk pal = Inl IncompleteSotESResourceError) \<and>
   (length b \<ge> 0x458 \<and>
      (from_le (take 4 (drop 0x438 b)) - from_le (take 4 (drop 0x448 b)) \<noteq> 10001 \<or>
       from_le (take 4 (drop 0x450 b)) - from_le (take 4 (drop 0x448 b)) > 128) \<longrightarrow>
    unpack b chk pal = Inl SotESResourceValidationError)"
  by (auto simp add: unpack_def identify_short identify_long and_then_def Let_def)

lemma identification_failures_examples:
  "unpack [] True False = Inl IncompleteSotESResourceError \<and>
   unpack (replicate 0x458 0) True False = Inl SotESResourceValidationError"
  using identification_failures_unbounded [of "[]" True False]
    identification_failures_unbounded [of "replicate 0x458 0" True False]
  by (simp add: from_le_replicate_0)

section \<open>More on the stages\<close>

lemma identify_Inr_length: "identify b = Inr kp \<Longrightarrow> \<not> length b < 0x458"
  by (auto simp add: identify_def split: if_splits)

lemma dimensions_long:
  "\<not> length b < 0x458 \<Longrightarrow>
   dimensions b obf_key chk =
     (let width_off = 4 * (from_le (take 4 (drop 0x440 b)) - obf_key) + 0x004;
          height_off = 4 * (from_le (take 4 (drop 0x018 b)) - obf_key) + 0x420
      in if int (length b) \<le> max width_off height_off + 4
         then Inl IncompleteSotESResourceError
         else
           and_then (unpack_from fmt_i b width_off) (\<lambda>w.
           and_then (unpack_from fmt_i b height_off) (\<lambda>h.
           if chk \<and> w - obf_key \<le> 0 then Inl InvalidBitmapError
           else if chk \<and> h - obf_key = 0 then Inl InvalidBitmapError
           else Inr (w - obf_key, h - obf_key))))"
  by (simp add: dimensions_def unpack_from_inside and_then_def Let_def)

lemma color_depth_long:
  "\<not> length b < 0x458 \<Longrightarrow>
   color_depth b obf_key chk =
     (let img_color_depth = from_le (take 2 (drop 0x430 b)) - (obf_key AND 0xFFFF)
      in if chk \<and> img_color_depth \<notin> {1, 4, 8, 16, 24, 32} then Inl InvalidBitmapError
         else Inr img_color_depth)"
  by (simp add: color_depth_def unpack_from_inside and_then_def Let_def)

lemma py_slice_inside:
  "0 \<le> i \<Longrightarrow> i \<le> j \<Longrightarrow> j \<le> int (length xs) \<Longrightarrow>
   py_slice xs i j = take (nat (j - i)) (drop (nat i) xs)"
  by (simp add: py_slice_def Let_def min_def)

lemma color_table_slice:
  "\<not> length b < 0x458 \<Longrightarrow> py_slice b 0x20 0x420 = take 0x400 (drop 0x20 b)"
  by (simp add: py_slice_inside)

lemma py_slice_drop:
  "n \<le> length xs \<Longrightarrow> int n \<le> i \<Longrightarrow> i \<le> j \<Longrightarrow>
   py_slice xs i j = py_slice (drop n xs) (i - int n) (j - int n)"
  by (auto simp add: py_slice_def Let_def min_def nat_diff_distrib' nat_add_distrib
       intro!: arg_cong2 [where f = take] arg_cong2 [where f = drop])

lemma and_then_Inr:
  "and_then m f = Inr out \<longleftrightarrow> (\<exists>v. m = Inr v \<and> f v = Inr out)"
  by (cases m) (simp_all add: and_then_def)

lemma unpack_Inr_iff:
  "unpack b chk pal = Inr out \<longleftrightarrow>
   (\<exists>k p w h d ct n pix.
      identify b = Inr (k, p) \<and> dimensions b k chk = Inr (w, h) \<and>
      color_depth b k chk = Inr d \<and> color_table b d pal = Inr (ct, n) \<and>
      (chk \<longrightarrow> validate_alpha (slice_3_4 ct) = Inr ()) \<and>
      pixel_array b p d w h = Inr pix \<and> build_bitmap w h d ct n pix = Inr out)"
  by (auto simp add: unpack_def and_then_def split: sum.splits prod.splits if_splits)

lemma unpack_stages:
  assumes "identify b = Inr (k, p)" and "dimensions b k chk = Inr (w, h)"
    and "color_depth b k chk = Inr d" and "color_table b d pal = Inr (ct, n)"
    and "chk \<Longrightarrow> validate_alpha (slice_3_4 ct) = Inr ()"
    and "pixel_array b p d w h = Inr pix"
  shows "unpack b chk pal = build_bitmap w h d ct n pix"
  using assms by (simp add: unpack_def and_then_def)

subsection \<open>The reserved bytes of the color table\<close>

lemma four_le_length:
  "4 \<le> length xs \<Longrightarrow> \<exists>a b c d ys. xs = a # b # c # d # ys"
proof -
  assume "4 \<le> length xs"
  then have "Suc (Suc (Suc (Suc 0))) \<le> length xs" by simp
  then show ?thesis
    by (auto simp add: Suc_le_length_iff)
qed

lemma slice_3_4_group:
  "4 * j + 3 < length xs \<Longrightarrow> xs ! (4 * j + 3) \<in> set (slice_3_4 xs)"
proof (induction j arbitrary: xs)
  case 0
  then have "4 \<le> length xs" by simp
  then obtain a b c d ys where "xs = a # b # c # d # ys"
    using four_le_length by blast
  then show ?case by (simp add: numeral_3_eq_3)
next
  case (Suc j)
  then have "4 \<le> length xs" by simp
  then obtain a b c d ys where xs: "xs = a # b # c # d # ys"
    using four_le_length by blast
  with Suc.prems have "4 * j + 3 < length ys" by simp
  then have "ys ! (4 * j + 3) \<in> set (slice_3_4 ys)" by (rule Suc.IH)
  moreover have "4 * Suc j + 3 = Suc (Suc (Suc (Suc (4 * j + 3))))" by simp
  then have "xs ! (4 * Suc j + 3) = ys ! (4 * j + 3)"
    by (simp only: xs nth_Cons_Suc)
  ultimately show ?case by (simp add: xs)
qed

lemma slice_3_4_nth:
  assumes "i < length xs" and "i mod 4 = 3"
  shows "xs ! i \<in> set (slice_3_4 xs)"
proof -
  have "i = 4 * (i div 4) + 3"
    using assms(2) by presburger
  with assms(1) slice_3_4_group [of "i div 4" xs] show ?thesis by simp
qed

lemma slice_3_4_subset: "set (slice_3_4 xs) \<subseteq> set xs"
  by (induction xs rule: slice_3_4.induct) auto

lemma validate_alpha_Inl:
  "x \<in> set xs \<Longrightarrow> x \<noteq> 0 \<Longrightarrow> validate_alpha xs = Inl InvalidBitmapError"
  by (induction xs) auto

lemma validate_alpha_zeros: "set xs \<subseteq> {0} \<Longrightarrow> validate_alpha xs = Inr ()"
  by (induction xs) auto

lemma validate_alpha_bytes: "validate_alpha (slice_3_4 (bytes n)) = Inr ()"
proof -
  have "set (slice_3_4 (bytes n)) \<subseteq> set (bytes n)" by (rule slice_3_4_subset)
  also have "\<dots> \<subseteq> {0}" by (auto simp add: bytes_def)
  finally show ?thesis by (rule validate_alpha_zeros)
qed

subsection \<open>The fields written by \<open>struct.pack\<close>\<close>

lemma to_le_2: "to_le 2 v = [word_of_int v, word_of_int (v div 256)]"
  by (simp add: numeral_2_eq_2)

lemma to_le_4:
  "to_le 4 v = [word_of_int v, word_of_int (v div 256), word_of_int (v div 256 div 256),
     word_of_int (v div 256 div 256 div 256)]"
  by (simp add: numeral_eq_Suc)

lemma pack_unsigned_Inr:
  "pack_field (Unsigned n) v = Inr b \<longleftrightarrow> 0 \<le> v \<and> v < 256 ^ n \<and> b = to_le n v"
  by auto

lemma pack_signed_Inr:
  "pack_field (Signed n) v = Inr b \<longleftrightarrow>
     - (256 ^ n div 2) \<le> v \<and> v < 256 ^ n div 2 \<and> b = to_le n v"
  by auto

lemma struct_pack_Cons_Inr:
  "struct_pack (f # fs) (v # vs) = Inr out \<longleftrightarrow>
     (\<exists>b bs. pack_field f v = Inr b \<and> struct_pack fs vs = Inr bs \<and> out = b @ bs)"
  by (auto simp add: and_then_def split: sum.splits)

lemma struct_pack_Nil_Inr: "struct_pack [] [] = Inr out \<longleftrightarrow> out = []"
  by auto

lemma build_bitmap_Inr:
  assumes "build_bitmap w h d ct n pix = Inr out"
  shows "out = [0x42, 0x4D] @ to_le 4 (14 + 40 + int (length ct) + int (length pix)) @
           to_le 2 0 @ to_le 2 0 @ to_le 4 (14 + 40 + int (length ct)) @
           to_le 4 40 @ to_le 4 \<bar>w\<bar> @ to_le 4 \<bar>h\<bar> @ to_le 2 1 @ to_le 2 d @ to_le 4 0 @
           to_le 4 (int (length pix)) @ to_le 4 0 @ to_le 4 0 @ to_le 4 n @ to_le 4 0 @
           ct @ pix \<and>
         14 + 40 + int (length ct) + int (length pix) < 2 ^ 32 \<and>
         \<bar>w\<bar> < 2 ^ 31 \<and> \<bar>h\<bar> < 2 ^ 31 \<and> 0 \<le> d \<and> d < 2 ^ 16 \<and> 0 \<le> n \<and> n < 2 ^ 32"
proof -
  from assms obtain fields dib where
    f: "struct_pack [fmt_L, fmt_H, fmt_H, fmt_L]
          [0x0E + 0x28 + int (length ct) + int (length pix), 0x00, 0x00,
           0x0E + 0x28 + int (length ct)] = Inr fields"
    and d: "struct_pack
          [fmt_L, fmt_l, fmt_l, fmt_H, fmt_H, fmt_L, fmt_L, fmt_l, fmt_l, fmt_L, fmt_L]
          [0x28, \<bar>w\<bar>, \<bar>h\<bar>, 0x01, d, 0x00, int (length pix), 0x00, 0x00, n, 0x00] = Inr dib"
    and out: "out = ([0x42, 0x4D] @ fields) @ dib @ ct @ pix"
    unfolding build_bitmap_def and_then_Inr Let_def by auto
  from f have f': "fields = to_le 4 (14 + 40 + int (length ct) + int (length pix)) @
      to_le 2 0 @ to_le 2 0 @ to_le 4 (14 + 40 + int (length ct))"
    and r1: "14 + 40 + int (length ct) + int (length pix) < 2 ^ 32"
    unfolding struct_pack_Cons_Inr struct_pack_Nil_Inr pack_unsigned_Inr by auto
  from d have d': "dib = to_le 4 40 @ to_le 4 \<bar>w\<bar> @ to_le 4 \<bar>h\<bar> @ to_le 2 1 @ to_le 2 d @
      to_le 4 0 @ to_le 4 (int (length pix)) @ to_le 4 0 @ to_le 4 0 @ to_le 4 n @ to_le 4 0"
    and r2: "\<bar>w\<bar> < 2 ^ 31" "\<bar>h\<bar> < 2 ^ 31" "0 \<le> d" "d < 2 ^ 16" "0 \<le> n" "n < 2 ^ 32"
    unfolding struct_pack_Cons_Inr struct_pack_Nil_Inr pack_unsigned_Inr pack_signed_Inr
    by auto
  show ?thesis
    using out f' d' r1 r2 by simp
qed

section \<open>Evaluating the concrete resources\<close>

lemma upt_4: "[0..<4] = [0, 1, 2, 3]"
  by (simp add: upt_rec numeral_eq_Suc)

lemma length_resource_8bpp: "length resource_8bpp = 0x468"
  by (simp add: resource_8bpp_def length_layout length_bytes)

lemmas fields_8bpp = layout_fields [OF length_bytes resource_8bpp_def]

lemmas slice_8bpp =
  py_slice_drop [where n = "0x458" and xs = resource_8bpp, unfolded fields_8bpp(10),
    simplified length_resource_8bpp, simplified]

lemma identify_8bpp: "identify resource_8bpp = Inr (0x1000, 0)"
  by (simp add: identify_long length_resource_8bpp fields_8bpp from_le_to_le)

lemma dimensions_8bpp: "dimensions resource_8bpp 0x1000 chk = Inr (4, 4)"
  by (simp add: dimensions_long length_resource_8bpp fields_8bpp from_le_to_le
        unpack_from_inside and_then_def)

lemma color_depth_8bpp: "color_depth resource_8bpp 0x1000 chk = Inr 8"
  by (simp add: color_depth_long length_resource_8bpp fields_8bpp from_le_to_le)

lemma color_table_8bpp: "color_table resource_8bpp 8 pal = Inr (bytes 0x400, 0)"
  by (simp add: color_table_def color_table_slice length_resource_8bpp fields_8bpp)

lemma pixel_array_8bpp:
  "pixel_array resource_8bpp 0 8 4 4 =
     Inr [1, 2, 3, 4, 5, 6, 7, 8, 9, 10, 11, 12, 13, 14, 15, 16]"
  by (simp add: pixel_array_def length_resource_8bpp Let_def slice_8bpp upt_4 bytes_def)
    (simp add: py_slice_def)

lemma unpack_8bpp: "unpack resource_8bpp True pal = Inr bitmap_8bpp"
proof -
  have "unpack resource_8bpp True pal =
      build_bitmap 4 4 8 (bytes 0x400) 0 [1, 2, 3, 4, 5, 6, 7, 8, 9, 10, 11, 12, 13, 14, 15, 16]"
    by (rule unpack_stages [OF identify_8bpp dimensions_8bpp color_depth_8bpp color_table_8bpp
          validate_alpha_bytes pixel_array_8bpp])
  also have "\<dots> = Inr bitmap_8bpp"
    by (simp add: build_bitmap_def and_then_def length_bytes to_le_2 to_le_4 bitmap_8bpp_def)
  finally show ?thesis .
qed

lemma length_resource_16bpp: "length resource_16bpp = 0x458"
  by (simp add: resource_16bpp_def length_layout length_bytes)

lemmas fields_16bpp = layout_fields [OF length_bytes resource_16bpp_def]

lemma identify_16bpp: "identify resource_16bpp = Inr (0x1000, 0)"
  by (simp add: identify_long length_resource_16bpp fields_16bpp from_le_to_le)

lemma dimensions_16bpp: "dimensions resource_16bpp 0x1000 chk = Inr (4, 4)"
  by (simp add: dimensions_long length_resource_16bpp fields_16bpp from_le_to_le
        unpack_from_inside and_then_def)

lemma color_depth_16bpp: "color_depth resource_16bpp 0x1000 chk = Inr 16"
  by (simp add: color_depth_long length_resource_16bpp fields_16bpp from_le_to_le)

lemma raw_depth_16bpp:
  "from_le (take 2 (drop 0x430 resource_16bpp)) - (0x1000 AND 0xFFFF) = 16"
  by (simp add: fields_16bpp from_le_to_le)

section \<open>Unsupported color depths\<close>

text \<open>
  With the subtraction the code performs, on unbounded integers: for a buffer that passes
  identification and the dimension stage, in strict or in lenient mode, when the depth
  field at \<open>0x430\<close> minus the low 16 bits of the key is 16, \<open>unpack\<close> fails with
  \<open>UnsupportedBitmapError\<close>; and whenever the depth stage returns a depth other than 8
  and 24, \<open>unpack\<close> fails with \<open>UnsupportedBitmapError\<close>.
\<close>

lemma unsupported_depth_unbounded:
  assumes "identify b = Inr (k, p)" and "dimensions b k chk = Inr (w, h)"
  shows "(from_le (take 2 (drop 0x430 b)) - (k AND 0xFFFF) = 16 \<longrightarrow>
            unpack b chk pal = Inl UnsupportedBitmapError) \<and>
         (\<forall>d. color_depth b k chk = Inr d \<and> d \<noteq> 8 \<and> d \<noteq> 24 \<longrightarrow>
            unpack b chk pal = Inl UnsupportedBitmapError)"
proof -
  have len: "\<not> length b < 0x458"
    using assms(1) by (rule identify_Inr_length)
  show ?thesis
    using assms
    by (auto simp add: unpack_def color_depth_long [OF len] color_table_def and_then_def Let_def)
qed

lemma unsupported_depth_examples:
  "unpack resource_16bpp True False = Inl UnsupportedBitmapError \<and>
   unpack resource_16bpp False False = Inl UnsupportedBitmapError \<and>
   unpack resource_16bpp False True = Inl UnsupportedBitmapError"
  using unsupported_depth_unbounded [OF identify_16bpp dimensions_16bpp, of True False]
    unsupported_depth_unbounded [OF identify_16bpp dimensions_16bpp, of False False]
    unsupported_depth_unbounded [OF identify_16bpp dimensions_16bpp, of False True]
    raw_depth_16bpp color_depth_16bpp
  by simp

lemma length_resource_depth_wrap: "length resource_depth_wrap = 0x458"
  by (simp add: resource_depth_wrap_def length_layout length_bytes)

lemmas fields_depth_wrap = layout_fields [OF length_bytes resource_depth_wrap_def]

lemma identify_depth_wrap: "identify resource_depth_wrap = Inr (65520, 0)"
  by (simp add: identify_long length_resource_depth_wrap fields_depth_wrap from_le_to_le)

lemma dimensions_depth_wrap: "dimensions resource_depth_wrap 65520 chk = Inr (4, 4)"
  by (simp add: dimensions_long length_resource_depth_wrap fields_depth_wrap from_le_to_le
        unpack_from_inside and_then_def)

lemma color_depth_depth_wrap_strict:
  "color_depth resource_depth_wrap 65520 True = Inl InvalidBitmapError"
  by (simp add: color_depth_long length_resource_depth_wrap fields_depth_wrap from_le_to_le)

lemma color_depth_depth_wrap_lenient:
  "color_depth resource_depth_wrap 65520 False = Inr (- 65520)"
  by (simp add: color_depth_long length_resource_depth_wrap fields_depth_wrap from_le_to_le)

text \<open>
  C6. A buffer whose de-obfuscated depth is 16 and that does not fail with
  \<open>UnsupportedBitmapError\<close> in strict mode: under the key \<open>0xFFF0\<close> the depth field 0 is
  the depth 16 in 16 bits, the code computes \<open>0 - 0xFFF0 = -65520\<close>, and the strict depth
  list rejects it with \<open>InvalidBitmapError\<close>; only the lenient mode reaches the
  color-table stage and fails with \<open>UnsupportedBitmapError\<close>.
\<close>

theorem wrapped_depth_16_is_invalid:
  "(from_le (take 2 (drop 0x430 resource_depth_wrap)) -
      (from_le (take 4 (drop 0x448 resource_depth_wrap)) AND 0xFFFF)) mod 2 ^ 16 = 16 \<and>
   unpack resource_depth_wrap True pal = Inl InvalidBitmapError \<and>
   unpack resource_depth_wrap False pal = Inl UnsupportedBitmapError"
  using identify_depth_wrap dimensions_depth_wrap color_depth_depth_wrap_strict
    color_depth_depth_wrap_lenient
  by (simp add: unpack_def and_then_def color_table_def fields_depth_wrap from_le_to_le)

section \<open>The palette flag\<close>

text \<open>
  C10. For every buffer whose depth field at \<open>0x430\<close> minus the low 16 bits of the key
  is 8, and for each setting of the additional checks, \<open>unpack\<close> returns the same result
  with \<open>always_include_palette\<close> true and false; the same holds for every depth other
  than 24.
\<close>

theorem palette_flag_only_for_depth_24:
  "(from_le (take 2 (drop 0x430 b)) - (from_le (take 4 (drop 0x448 b)) AND 0xFFFF) = 8 \<longrightarrow>
      unpack b chk True = unpack b chk False) \<and>
   (from_le (take 2 (drop 0x430 b)) - (from_le (take 4 (drop 0x448 b)) AND 0xFFFF) \<noteq> 24 \<longrightarrow>
      unpack b chk True = unpack b chk False)"
proof (cases "length b < 0x458")
  case True
  then show ?thesis by (simp add: unpack_def identify_short and_then_def)
next
  case False
  show ?thesis
    by (auto simp add: unpack_def identify_long [OF False] color_depth_long [OF False]
          color_table_def and_then_def Let_def split: sum.splits prod.splits if_splits)
qed

theorem palette_flag_only_for_depth_24_witness:
  "unpack resource_8bpp True True = unpack resource_8bpp True False \<and>
   unpack resource_8bpp True False = Inr bitmap_8bpp \<and>
   unpack resource_16bpp False True = unpack resource_16bpp False False"
  using palette_flag_only_for_depth_24 [of resource_8bpp True]
    palette_flag_only_for_depth_24 [of resource_16bpp False]
    unpack_8bpp [of False]
  by (simp add: fields_8bpp fields_16bpp from_le_to_le)

section \<open>Offsets inside the buffer\<close>

text \<open>
  When the pixel offset is not negative, every row of the pixel array is a full row read
  from the buffer in file order, followed by its padding.
\<close>

lemma pixel_array_rows:
  assumes off: "0 \<le> 0x458 + p" and d: "0 \<le> d"
    and pa: "pixel_array b p d w h = Inr pix"
  shows "pix = concat (map (\<lambda>i.
           take (nat (d div 8 * \<bar>w\<bar>)) (drop (nat (0x458 + p) + i * nat (d div 8 * \<bar>w\<bar>)) b) @
           replicate (nat ((- (d div 8 * \<bar>w\<bar>)) mod 4)) 0) [0..<nat \<bar>h\<bar>]) \<and>
         (\<forall>i < nat \<bar>h\<bar>.
           length (take (nat (d div 8 * \<bar>w\<bar>))
             (drop (nat (0x458 + p) + i * nat (d div 8 * \<bar>w\<bar>)) b)) = nat (d div 8 * \<bar>w\<bar>))"
proof -
  define rs where "rs = d div 8 * \<bar>w\<bar>"
  have rs: "0 \<le> rs"
    using d by (simp add: rs_def pos_imp_zdiv_nonneg_iff)
  from pa have len: "0x458 + p + rs * \<bar>h\<bar> \<le> int (length b)"
    by (auto simp add: pixel_array_def Let_def rs_def split: if_splits)
  have inside: "0x458 + p + int i * rs + rs \<le> int (length b)" if "i < nat \<bar>h\<bar>" for i
  proof -
    from that have "int i + 1 \<le> \<bar>h\<bar>" by simp
    then have "(int i + 1) * rs \<le> \<bar>h\<bar> * rs"
      using rs by (rule mult_right_mono)
    with len show ?thesis by (simp add: algebra_simps)
  qed
  have row: "py_slice b (0x458 + p + int i * rs) (0x458 + p + int i * rs + rs) =
      take (nat rs) (drop (nat (0x458 + p) + i * nat rs) b)" if "i < nat \<bar>h\<bar>" for i
  proof -
    have "0 \<le> 0x458 + p + int i * rs"
      using off rs by simp
    moreover have "nat (0x458 + p + int i * rs) = nat (0x458 + p) + i * nat rs"
      using off rs by (simp add: nat_add_distrib nat_mult_distrib)
    ultimately show ?thesis
      using py_slice_inside [of "0x458 + p + int i * rs" "0x458 + p + int i * rs + rs" b]
        inside [OF that] rs by simp
  qed
  have "pix = concat (map (\<lambda>i.
      py_slice b (0x458 + p + int i * rs) (0x458 + p + int i * rs + rs) @
      bytes (nat ((- rs) mod 4))) [0..<nat \<bar>h\<bar>])"
    using pa by (auto simp add: pixel_array_def Let_def rs_def split: if_splits)
  also have "\<dots> = concat (map (\<lambda>i.
      take (nat rs) (drop (nat (0x458 + p) + i * nat rs) b) @
      replicate (nat ((- rs) mod 4)) 0) [0..<nat \<bar>h\<bar>])"
    by (rule arg_cong [where f = concat], rule map_cong) (simp_all add: row bytes_def)
  finally have first: "pix = concat (map (\<lambda>i.
      take (nat rs) (drop (nat (0x458 + p) + i * nat rs) b) @
      replicate (nat ((- rs) mod 4)) 0) [0..<nat \<bar>h\<bar>])" .
  have second: "length (take (nat rs) (drop (nat (0x458 + p) + i * nat rs) b)) = nat rs"
    if "i < nat \<bar>h\<bar>" for i
  proof -
    have "int (nat (0x458 + p) + i * nat rs + nat rs) = 0x458 + p + int i * rs + rs"
      using off rs by simp
    with inside [OF that] have "int (nat (0x458 + p) + i * nat rs + nat rs) \<le> int (length b)"
      by simp
    then have "nat (0x458 + p) + i * nat rs + nat rs \<le> length b"
      by (simp only: of_nat_le_iff)
    then show ?thesis by simp
  qed
  from first second show ?thesis
    unfolding rs_def by blast
qed

text \<open>
  The dimension stage: the Incomplete error, and the two reads when both offsets are not
  negative.
\<close>

lemma dimensions_incomplete:
  assumes "\<not> length b < 0x458"
    and "int (length b) \<le>
      max (4 * (from_le (take 4 (drop 0x440 b)) - k) + 0x004)
          (4 * (from_le (take 4 (drop 0x018 b)) - k) + 0x420) + 4"
  shows "dimensions b k chk = Inl IncompleteSotESResourceError"
  using assms(2) by (simp add: dimensions_long [OF assms(1)] Let_def)

lemma dimensions_in_range:
  assumes "\<not> length b < 0x458"
    and "width_off = 4 * (from_le (take 4 (drop 0x440 b)) - k) + 0x004"
    and "height_off = 4 * (from_le (take 4 (drop 0x018 b)) - k) + 0x420"
    and "0 \<le> width_off" and "0 \<le> height_off"
    and "max width_off height_off + 4 < int (length b)"
  shows "dimensions b k False =
     Inr (decode_field fmt_i (take 4 (drop (nat width_off) b)) - k,
          decode_field fmt_i (take 4 (drop (nat height_off) b)) - k)"
proof -
  have w: "unpack_from fmt_i b width_off =
      Inr (decode_field fmt_i (take 4 (drop (nat width_off) b)))"
    using assms(4,6) by (simp add: unpack_from_inside)
  have h: "unpack_from fmt_i b height_off =
      Inr (decode_field fmt_i (take 4 (drop (nat height_off) b)))"
    using assms(5,6) by (simp add: unpack_from_inside)
  have "dimensions b k False =
      (if int (length b) \<le> max width_off height_off + 4
       then Inl IncompleteSotESResourceError
       else and_then (unpack_from fmt_i b width_off) (\<lambda>w.
            and_then (unpack_from fmt_i b height_off) (\<lambda>h. Inr (w - k, h - k))))"
    unfolding dimensions_long [OF assms(1)] Let_def assms(2) assms(3) by simp
  also have "\<dots> = Inr (decode_field fmt_i (take 4 (drop (nat width_off) b)) - k,
      decode_field fmt_i (take 4 (drop (nat height_off) b)) - k)"
    unfolding w h using assms(6) by (simp add: and_then_def)
  finally show ?thesis .
qed

lemma build_bitmap_fits:
  assumes "14 + 40 + int (length ct) + int (length pix) < 2 ^ 32"
    and "\<bar>w\<bar> < 2 ^ 31" and "\<bar>h\<bar> < 2 ^ 31" and "0 \<le> d" and "d < 2 ^ 16"
    and "0 \<le> n" and "n < 2 ^ 32"
  shows "\<exists>out. build_bitmap w h d ct n pix = Inr out"
proof -
  have "- 2147483648 \<le> \<bar>w\<bar>" and "- 2147483648 \<le> \<bar>h\<bar>"
    by arith+
  with assms show ?thesis
    by (simp add: build_bitmap_def and_then_def)
qed

lemma from_le_take_4: "from_le (take 4 xs) < 4294967296"
proof -
  have "from_le (take 4 xs) < 256 ^ length (take 4 xs)"
    using from_le_bounds [of "take 4 xs"] by simp
  also have "\<dots> \<le> (256::int) ^ 4"
    by (rule power_increasing) simp_all
  finally show ?thesis by simp
qed

lemma unpack_from_i_bound: "unpack_from fmt_i b off = Inr v \<Longrightarrow> v < 2 ^ 31"
  using from_le_take_4 [of "drop (nat off) b"]
    from_le_take_4 [of "drop (nat (off + int (length b))) b"]
  by (auto simp add: unpack_from_def Let_def split: if_splits)

lemma unpack_from_I_nonneg: "unpack_from fmt_I b off = Inr v \<Longrightarrow> 0 \<le> v"
  using from_le_bounds by (auto simp add: unpack_from_def Let_def split: if_splits)

lemma identify_key_nonneg: "identify b = Inr (k, p) \<Longrightarrow> 0 \<le> k"
  by (auto simp add: identify_def and_then_Inr Let_def split: if_splits
        dest: unpack_from_I_nonneg)

lemma dimensions_strict_width:
  assumes "0 \<le> k" and "dimensions b k True = Inr (w, h)"
  shows "0 < w \<and> w < 2 ^ 31"
proof -
  from assms(2) obtain off v where "unpack_from fmt_i b off = Inr v" and "w = v - k" and "0 < w"
    by (auto simp add: dimensions_def and_then_Inr Let_def split: if_splits)
  with unpack_from_i_bound [of b off v] assms(1) show ?thesis by simp
qed


lemma dimensions_lenient:
  "dimensions b k True = Inr wh \<Longrightarrow> dimensions b k False = Inr wh"
  by (auto simp add: dimensions_def and_then_def Let_def split: sum.splits if_splits)

lemma color_depth_lenient:
  "color_depth b k True = Inr d \<Longrightarrow> color_depth b k False = Inr d"
  by (auto simp add: color_depth_def and_then_def Let_def split: sum.splits if_splits)






section \<open>The reserved bytes under strict and lenient checks\<close>


























section \<open>The layout of the bitmap\<close>

text \<open>
  C8. Every successful decode returns the 14-byte file header (\<open>BM\<close>, the total size,
  two zero 16-bit fields, the offset of the pixel array), the 40-byte info header (40,
  \<open>|width|\<close>, \<open>|height|\<close>, 1, the depth, 0, the size of the pixel array, 0, 0, the
  palette-color count of the color-table stage, 0), the color table and the pixel array,
  all little-endian, each value within the range of its field.
\<close>

theorem bitmap_layout:
  assumes "unpack b chk pal = Inr out"
  shows "\<exists>k p w h d ct n pix.
      identify b = Inr (k, p) \<and> dimensions b k chk = Inr (w, h) \<and>
      color_depth b k chk = Inr d \<and> color_table b d pal = Inr (ct, n) \<and>
      pixel_array b p d w h = Inr pix \<and>
      out = [0x42, 0x4D] @ to_le 4 (14 + 40 + int (length ct) + int (length pix)) @
              to_le 2 0 @ to_le 2 0 @ to_le 4 (14 + 40 + int (length ct)) @
            to_le 4 40 @ to_le 4 \<bar>w\<bar> @ to_le 4 \<bar>h\<bar> @ to_le 2 1 @ to_le 2 d @ to_le 4 0 @
              to_le 4 (int (length pix)) @ to_le 4 0 @ to_le 4 0 @ to_le 4 n @ to_le 4 0 @
            ct @ pix \<and>
      14 + 40 + int (length ct) + int (length pix) < 2 ^ 32 \<and>
      \<bar>w\<bar> < 2 ^ 31 \<and> \<bar>h\<bar> < 2 ^ 31 \<and> 0 \<le> d \<and> d < 2 ^ 16 \<and> 0 \<le> n \<and> n < 2 ^ 32"
proof -
  from assms obtain k p w h d ct n pix where
    st: "identify b = Inr (k, p)" "dimensions b k chk = Inr (w, h)"
      "color_depth b k chk = Inr d" "color_table b d pal = Inr (ct, n)"
      "pixel_array b p d w h = Inr pix"
    and bb: "build_bitmap w h d ct n pix = Inr out"
    unfolding unpack_Inr_iff by blast
  from build_bitmap_Inr [OF bb] st show ?thesis by blast
qed

theorem bitmap_layout_witness:
  "unpack resource_8bpp True False = Inr bitmap_8bpp \<and>
   (\<exists>k p w h d ct n pix.
      identify resource_8bpp = Inr (k, p) \<and> dimensions resource_8bpp k True = Inr (w, h) \<and>
      color_depth resource_8bpp k True = Inr d \<and> color_table resource_8bpp d False = Inr (ct, n) \<and>
      pixel_array resource_8bpp p d w h = Inr pix \<and>
      bitmap_8bpp = [0x42, 0x4D] @ to_le 4 (14 + 40 + int (length ct) + int (length pix)) @
              to_le 2 0 @ to_le 2 0 @ to_le 4 (14 + 40 + int (length ct)) @
            to_le 4 40 @ to_le 4 \<bar>w\<bar> @ to_le 4 \<bar>h\<bar> @ to_le 2 1 @ to_le 2 d @ to_le 4 0 @
              to_le 4 (int (length pix)) @ to_le 4 0 @ to_le 4 0 @ to_le 4 n @ to_le 4 0 @
            ct @ pix)"
  using bitmap_layout [OF unpack_8bpp [of False]] unpack_8bpp [of False] by blast

section \<open>Key subtraction below zero\<close>

lemma length_resource_underflow: "length resource_underflow = 0x467"
  by (simp add: resource_underflow_def length_layout length_bytes)

lemmas fields_underflow = layout_fields [OF length_bytes resource_underflow_def]

lemma drop_underflow:
  "drop 0x457 resource_underflow = [0, 1, 2, 3, 4, 5, 6, 7, 8, 9, 10, 11, 12, 13, 14, 15]"
  by (simp add: resource_underflow_def layout_def length_bytes length_to_le)
    (simp add: bytes_def)

lemmas slice_underflow =
  py_slice_drop [where n = "0x457" and xs = resource_underflow, unfolded drop_underflow,
    simplified length_resource_underflow, simplified]

lemma identify_underflow: "identify resource_underflow = Inr (1, - 1)"
  by (simp add: identify_long length_resource_underflow fields_underflow from_le_to_le)

lemma dimensions_underflow: "dimensions resource_underflow 1 chk = Inr (4, 4)"
  by (simp add: dimensions_long length_resource_underflow fields_underflow from_le_to_le
        unpack_from_inside and_then_def)

lemma color_depth_underflow: "color_depth resource_underflow 1 chk = Inr 8"
  by (simp add: color_depth_long length_resource_underflow fields_underflow from_le_to_le)

lemma color_table_underflow: "color_table resource_underflow 8 pal = Inr (bytes 0x400, 0)"
  by (simp add: color_table_def color_table_slice length_resource_underflow fields_underflow)

lemma pixel_array_underflow:
  "pixel_array resource_underflow (- 1) 8 4 4 =
     Inr [0, 1, 2, 3, 4, 5, 6, 7, 8, 9, 10, 11, 12, 13, 14, 15]"
  by (simp add: pixel_array_def length_resource_underflow Let_def slice_underflow upt_4 bytes_def)
    (simp add: py_slice_def)

text \<open>
  C2. The key subtraction of the decoder is a subtraction of unbounded integers: for the
  resource with key 1 and pixel-offset field 0 the recovered pixel-offset key is \<open>-1\<close>,
  not \<open>0xFFFFFFFF\<close>; it passes the check against 128, and the decode succeeds, reading
  the pixel array from \<open>0x457\<close>.
\<close>

theorem key_subtraction_goes_negative:
  "identify resource_underflow = Inr (1, - 1) \<and>
   unpack resource_underflow True False = Inr bitmap_underflow"
proof -
  have "unpack resource_underflow True False =
      build_bitmap 4 4 8 (bytes 0x400) 0 [0, 1, 2, 3, 4, 5, 6, 7, 8, 9, 10, 11, 12, 13, 14, 15]"
    by (rule unpack_stages [OF identify_underflow dimensions_underflow color_depth_underflow
          color_table_underflow validate_alpha_bytes pixel_array_underflow])
  also have "\<dots> = Inr bitmap_underflow"
    by (simp add: build_bitmap_def and_then_def length_bytes to_le_2 to_le_4 bitmap_underflow_def)
  finally show ?thesis
    using identify_underflow by simp
qed

theorem key_subtraction_goes_negative_witness:
  "unpack resource_underflow True False \<noteq> Inl SotESResourceValidationError"
  using key_subtraction_goes_negative by simp

lemma unpack_underflow: "unpack resource_underflow chk False = Inr bitmap_underflow"
proof -
  have "chk \<Longrightarrow> validate_alpha (slice_3_4 (bytes 0x400)) = Inr ()"
    by (rule validate_alpha_bytes)
  from unpack_stages [OF identify_underflow dimensions_underflow color_depth_underflow
      color_table_underflow this pixel_array_underflow]
  have "unpack resource_underflow chk False =
      build_bitmap 4 4 8 (bytes 0x400) 0 [0, 1, 2, 3, 4, 5, 6, 7, 8, 9, 10, 11, 12, 13, 14, 15]" .
  also have "\<dots> = Inr bitmap_underflow"
    by (simp add: build_bitmap_def and_then_def length_bytes to_le_2 to_le_4 bitmap_underflow_def)
  finally show ?thesis .
qed

text \<open>
  C3. A buffer of at least \<open>0x458\<close> bytes whose de-obfuscated pixel-offset key exceeds 128
  and that does not fail with the Validation error: for the resource with key 1 and
  pixel-offset field 0 the difference in 32 bits is \<open>0xFFFFFFFF\<close> (and the validation
  constant is 10001), and \<open>unpack\<close> returns a bitmap in both modes.
\<close>

theorem wrapped_pixel_offset_key_accepted:
  "0x458 \<le> length resource_underflow \<and>
   (from_le (take 4 (drop 0x450 resource_underflow)) -
      from_le (take 4 (drop 0x448 resource_underflow))) mod 2 ^ 32 = 4294967295 \<and>
   (from_le (take 4 (drop 0x438 resource_underflow)) -
      from_le (take 4 (drop 0x448 resource_underflow))) mod 2 ^ 32 = 10001 \<and>
   unpack resource_underflow True False = Inr bitmap_underflow \<and>
   unpack resource_underflow False False = Inr bitmap_underflow"
  using unpack_underflow [of True] unpack_underflow [of False]
  by (simp add: length_resource_underflow fields_underflow from_le_to_le)

lemma length_resource_far_index: "length resource_far_index = 0x458"
  by (simp add: resource_far_index_def length_layout length_bytes)

lemmas fields_far_index = layout_fields [OF length_bytes resource_far_index_def]

lemma identify_far_index: "identify resource_far_index = Inr (2000, 0)"
  by (simp add: identify_long length_resource_far_index fields_far_index from_le_to_le)

lemma dimensions_far_index: "dimensions resource_far_index 2000 chk = Inl StructError"
  by (simp add: dimensions_long length_resource_far_index fields_far_index from_le_to_le
        and_then_def)
    (simp add: unpack_from_def length_resource_far_index)

text \<open>
  C4. The resource passes the identification checks, its width offset is
  \<open>4 * (0 - 2000) + 4 = -7996\<close> and its height offset \<open>0x420\<close>, and its length \<open>0x458\<close> is
  greater than \<open>0x420 + 4\<close>: the read of the width fails with \<open>struct.error\<close>, in both
  modes, neither with the Incomplete error nor with a width.
\<close>

theorem width_read_outside_buffer:
  "identify resource_far_index = Inr (2000, 0) \<and>
   unpack resource_far_index chk pal = Inl StructError"
  using identify_far_index dimensions_far_index
  by (simp add: unpack_def and_then_def)

theorem width_read_outside_buffer_witness:
  "unpack resource_far_index True False \<noteq> Inl IncompleteSotESResourceError \<and>
   unpack resource_far_index False False \<noteq> Inl IncompleteSotESResourceError"
  using width_read_outside_buffer [of True False] width_read_outside_buffer [of False False]
  by simp

lemma length_resource_before_start: "length resource_before_start = 0x458"
  by (simp add: resource_before_start_def length_layout length_bytes)

lemmas fields_before_start = layout_fields [OF length_bytes resource_before_start_def]

lemma identify_before_start: "identify resource_before_start = Inr (1114, - 1114)"
  by (simp add: identify_long length_resource_before_start fields_before_start from_le_to_le)

lemma dimensions_before_start: "dimensions resource_before_start 1114 chk = Inr (4, 1)"
  by (simp add: dimensions_long length_resource_before_start fields_before_start from_le_to_le
        unpack_from_inside and_then_def)

lemma color_depth_before_start: "color_depth resource_before_start 1114 chk = Inr 8"
  by (simp add: color_depth_long length_resource_before_start fields_before_start from_le_to_le)

lemma color_table_before_start:
  "color_table resource_before_start 8 pal = Inr (bytes 0x400, 0)"
  by (simp add: color_table_def color_table_slice length_resource_before_start
        fields_before_start)

lemma pixel_array_before_start: "pixel_array resource_before_start (- 1114) 8 4 1 = Inr []"
  by (simp add: pixel_array_def length_resource_before_start Let_def bytes_def py_slice_def)

text \<open>
  C5. The resource reaches pixel extraction with one row of four bytes to read from
  offset \<open>-2\<close>: the slice \<open>[-2:2]\<close> is empty, the emitted pixel array has no bytes, and the
  decode succeeds with a bitmap of width 4 and height 1 without pixel data.
\<close>

theorem row_before_buffer_start:
  "pixel_array resource_before_start (- 1114) 8 4 1 = Inr [] \<and>
   unpack resource_before_start True False = Inr bitmap_no_pixels"
proof -
  have "unpack resource_before_start True False = build_bitmap 4 1 8 (bytes 0x400) 0 []"
    by (rule unpack_stages [OF identify_before_start dimensions_before_start
          color_depth_before_start color_table_before_start validate_alpha_bytes
          pixel_array_before_start])
  also have "\<dots> = Inr bitmap_no_pixels"
    by (simp add: build_bitmap_def and_then_def length_bytes to_le_2 to_le_4 bitmap_no_pixels_def)
  finally show ?thesis
    using pixel_array_before_start by simp
qed

section \<open>\<open>pack\<close> and the round trip\<close>

lemma to_le_0: "to_le n 0 = replicate n 0"
  by (induction n) auto

lemma assemble_layout:
  assumes "int w < 2 ^ 31" and "int h < 2 ^ 31" and "0 \<le> d" and "d < 2 ^ 16"
  shows "assemble w h d pal px = Inr (layout (int w) 0 pal (int h) d 10001 0 0 0 px)"
  using assms
  by (simp add: assemble_def and_then_def layout_def to_le_0 bytes_def
        replicate_add [symmetric])

lemma upt_2: "[0..<2] = [0, 1]"
  by (simp add: upt_rec numeral_eq_Suc)

lemma replicate_4: "replicate 4 x = [x, x, x, x]"
  by (simp add: numeral_eq_Suc)

lemma pixel_rows_red_blue:
  "pixel_rows_P 4 4 [0, 1, 0, 1, 1, 0, 1, 0, 0, 0, 1, 1, 1, 1, 0, 0] =
     Inr [1, 1, 0, 0, 0, 0, 1, 1, 1, 0, 1, 0, 0, 1, 0, 1]"
  by (simp add: pixel_rows_P_def upt_4 py_slice_def replicate_4 and_then_def Let_def)

lemma build_color_table_red_blue:
  "build_color_table [255, 0, 0, 0, 0, 255] = Inr table_red_blue"
  by (simp add: build_color_table_def range_step_3_def upt_2 py_index_def and_then_def
        ljust_def table_red_blue_def)

lemma pack_red_blue: "pack True (Some image_red_blue) = Inr resource_red_blue"
  by (simp add: pack_def pack_image_def image_red_blue_def build_color_table_red_blue
        pixel_rows_red_blue and_then_def assemble_layout resource_red_blue_def)

lemma length_table_red_blue: "length table_red_blue = 0x400"
  by (simp add: table_red_blue_def)

lemma length_resource_red_blue: "length resource_red_blue = 0x468"
  by (simp add: resource_red_blue_def length_layout length_table_red_blue)

lemmas fields_red_blue = layout_fields [OF length_table_red_blue resource_red_blue_def]

lemma identify_red_blue: "identify resource_red_blue = Inr (0, 0)"
  by (simp add: identify_long length_resource_red_blue fields_red_blue from_le_to_le)

lemma dimensions_red_blue: "dimensions resource_red_blue 0 chk = Inr (4, 4)"
  by (simp add: dimensions_long length_resource_red_blue fields_red_blue from_le_to_le
        unpack_from_inside and_then_def)

lemma color_depth_red_blue: "color_depth resource_red_blue 0 chk = Inr 8"
  by (simp add: color_depth_long length_resource_red_blue fields_red_blue from_le_to_le)

lemma color_table_red_blue:
  "color_table resource_red_blue 8 pal = Inr (table_red_blue, 0)"
  by (simp add: color_table_def color_table_slice length_resource_red_blue fields_red_blue)

lemma validate_alpha_red_blue:
  "validate_alpha (slice_3_4 table_red_blue) = Inl InvalidBitmapError"
proof -
  have "(11::nat) < length table_red_blue" "(11::nat) mod 4 = 3"
    by (simp_all add: table_red_blue_def)
  then have "table_red_blue ! 11 \<in> set (slice_3_4 table_red_blue)"
    by (rule slice_3_4_nth)
  moreover have "table_red_blue ! 11 \<noteq> 0"
    by (simp add: table_red_blue_def nth_append)
  ultimately show ?thesis by (rule validate_alpha_Inl)
qed

text \<open>
  C1. The round trip fails on a supported image: for the 4 by 4 image with a palette of
  two colors, red and blue, \<open>pack\<close> fills the unused part of the color table with the
  byte \<open>0x20\<close>, and \<open>unpack\<close> of the result under the default strict settings raises
  \<open>InvalidBitmapError\<close>.
\<close>

theorem roundtrip_fails_for_short_palette:
  "pack True (Some image_red_blue) = Inr resource_red_blue \<and>
   unpack resource_red_blue True False = Inl InvalidBitmapError"
  using pack_red_blue identify_red_blue dimensions_red_blue [of True]
    color_depth_red_blue [of True] color_table_red_blue [of False]
    validate_alpha_red_blue
  by (simp add: unpack_def and_then_def)

lemma collect_Inr:
  "collect xs = Inr vs \<Longrightarrow> list_all2 (\<lambda>x v. x = Inr v) xs vs"
  by (induction xs arbitrary: vs) (auto simp add: and_then_Inr)

lemma struct_pack_length:
  "struct_pack fs vs = Inr out \<Longrightarrow> length out = sum_list (map fmt_size fs)"
proof (induction fs vs arbitrary: out rule: struct_pack.induct)
  case (2 f fs v vs)
  then obtain b bs where b: "pack_field f v = Inr b" and bs: "struct_pack fs vs = Inr bs"
    and out: "out = b @ bs"
    unfolding struct_pack_Cons_Inr by blast
  have "length b = fmt_size f"
    using b by (cases f) (auto simp add: length_to_le split: if_splits)
  with "2.IH" [OF bs] out show ?case by simp
qed simp_all

lemma length_concat_const:
  "\<forall>x \<in> set xss. length x = n \<Longrightarrow> length (concat xss) = n * length xss"
  by (induction xss) auto

lemma color_entry_length:
  assumes "and_then (py_index pil_palette (color_offset + 2)) (\<lambda>c2.
        and_then (py_index pil_palette (color_offset + 1)) (\<lambda>c1.
        and_then (py_index pil_palette color_offset) (\<lambda>c0.
        struct_pack [fmt_B, fmt_B, fmt_B, fmt_B] [c2, c1, c0, 0x00]))) = Inr e"
  shows "length e = 4"
proof -
  from assms obtain c2 c1 c0 where
    "struct_pack [fmt_B, fmt_B, fmt_B, fmt_B] [c2, c1, c0, 0x00] = Inr e"
    unfolding and_then_Inr by blast
  from struct_pack_length [OF this] show ?thesis by simp
qed

lemma build_color_table_length:
  assumes "build_color_table pil_palette = Inr table" and "length pil_palette \<le> 3 * 256"
  shows "length table = 0x400"
proof -
  define f where "f = (\<lambda>color_offset.
        and_then (py_index pil_palette (color_offset + 2)) (\<lambda>c2.
        and_then (py_index pil_palette (color_offset + 1)) (\<lambda>c1.
        and_then (py_index pil_palette color_offset) (\<lambda>c0.
        struct_pack [fmt_B, fmt_B, fmt_B, fmt_B] [c2, c1, c0, 0x00]))))"
  define offsets where "offsets = range_step_3 (length pil_palette)"
  from assms(1) obtain entries where
    c: "collect (map f offsets) = Inr entries"
    and t: "table = ljust (concat entries) 0x400"
    unfolding build_color_table_def and_then_Inr f_def offsets_def by auto
  from collect_Inr [OF c]
  have all: "list_all2 (\<lambda>x v. x = Inr v) (map f offsets) entries" .
  then have "length entries = length offsets"
    by (auto dest: list_all2_lengthD)
  then have len: "length entries = (length pil_palette + 2) div 3"
    by (simp add: offsets_def range_step_3_def)
  have "length e = 4" if "e \<in> set entries" for e
  proof -
    from that obtain i where i: "i < length entries" and e: "entries ! i = e"
      by (auto simp add: in_set_conv_nth)
    from all i have "map f offsets ! i = Inr (entries ! i)"
      by (simp add: list_all2_conv_all_nth)
    moreover from all i have "i < length offsets"
      by (auto dest: list_all2_lengthD)
    ultimately have "f (offsets ! i) = Inr e"
      using e by simp
    then show ?thesis
      unfolding f_def by (rule color_entry_length)
  qed
  then have "length (concat entries) = 4 * length entries"
    by (simp add: length_concat_const)
  with len assms(2) have "length (concat entries) \<le> 0x400" by simp
  with t show ?thesis by (simp add: ljust_def)
qed

lemma assemble_Inr:
  assumes "assemble w h d pal px = Inr out"
  shows "out = bytes 0x04 @ to_le 4 (int w) @ bytes 0x18 @ pal @ to_le 4 (int h) @ bytes 0x0C @
           to_le 2 d @ bytes 0x06 @ to_le 4 10001 @ bytes 0x1C @ px"
  using assms
  by (auto simp add: assemble_def and_then_def split: if_splits)

lemma pack_Inr:
  assumes "pack avail opened = Inr out"
  shows "\<exists>img w h d table pixels.
      opened = Some img \<and> img_size img = (w, h) \<and> length table = 0x400 \<and>
      (mode img = P \<and> d = 8 \<and> build_color_table (getpalette img) = Inr table \<and>
         pixel_rows_P w h (getdata_P img) = Inr pixels
       \<or> mode img = RGB \<and> d = 24 \<and> table = bytes 0x400 \<and>
         pixel_rows_RGB w h (getdata_RGB img) = Inr pixels) \<and>
      assemble w h d table pixels = Inr out"
proof -
  from assms obtain img where img: "opened = Some img" and p: "pack_image img = Inr out"
    by (auto simp add: pack_def split: if_splits option.splits)
  obtain w h where wh: "img_size img = (w, h)" by (cases "img_size img")
  show ?thesis
  proof (cases "mode img = P")
    case True
    with p wh obtain table pixels where
      "length (getpalette img) \<le> 3 * 256"
      "build_color_table (getpalette img) = Inr table"
      "pixel_rows_P w h (getdata_P img) = Inr pixels"
      "assemble w h 8 table pixels = Inr out"
      by (auto simp add: pack_image_def Let_def and_then_Inr split: if_splits)
    with True img wh build_color_table_length [of "getpalette img" table] show ?thesis
      by auto
  next
    case False
    with p wh obtain pixels where
      "mode img = RGB"
      "pixel_rows_RGB w h (getdata_RGB img) = Inr pixels"
      "assemble w h 24 (bytes 0x400) pixels = Inr out"
      by (auto simp add: pack_image_def Let_def and_then_Inr split: if_splits)
    with img wh show ?thesis
      by (auto simp add: length_bytes)
  qed
qed

text \<open>
  C9. Whenever \<open>pack\<close> returns a container: bytes \<open>0x004\<close> to \<open>0x008\<close> hold the width,
  \<open>0x020\<close> to \<open>0x420\<close> the 1024-byte color table, \<open>0x420\<close> to \<open>0x424\<close> the height,
  \<open>0x430\<close> to \<open>0x432\<close> the depth (8 or 24), \<open>0x438\<close> to \<open>0x43C\<close> the constant 10001,
  and the pixel array starts at \<open>0x458\<close>; the five regions between these fields are zero,
  and so the key, the two index fields and the pixel-offset field read as 0.
\<close>

theorem pack_layout:
  assumes "pack avail opened = Inr out"
  shows "\<exists>img w h d table pixels.
      opened = Some img \<and> img_size img = (w, h) \<and> length table = 0x400 \<and>
      (mode img = P \<and> d = 8 \<and> build_color_table (getpalette img) = Inr table \<and>
         pixel_rows_P w h (getdata_P img) = Inr pixels
       \<or> mode img = RGB \<and> d = 24 \<and> table = bytes 0x400 \<and>
         pixel_rows_RGB w h (getdata_RGB img) = Inr pixels) \<and>
      take 4 out = bytes 4 \<and>
      take 4 (drop 0x004 out) = to_le 4 (int w) \<and>
      take 0x18 (drop 0x008 out) = bytes 0x18 \<and>
      take 0x400 (drop 0x020 out) = table \<and>
      take 4 (drop 0x420 out) = to_le 4 (int h) \<and>
      take 0xC (drop 0x424 out) = bytes 0xC \<and>
      take 2 (drop 0x430 out) = to_le 2 d \<and>
      take 6 (drop 0x432 out) = bytes 6 \<and>
      take 4 (drop 0x438 out) = to_le 4 10001 \<and>
      take 0x1C (drop 0x43C out) = bytes 0x1C \<and>
      drop 0x458 out = pixels \<and>
      unpack_from fmt_I out 0x448 = Inr 0 \<and>
      unpack_from fmt_I out 0x440 = Inr 0 \<and>
      unpack_from fmt_I out 0x018 = Inr 0 \<and>
      unpack_from fmt_I out 0x450 = Inr 0"
proof -
  from pack_Inr [OF assms] obtain img w h d table pixels where
    st: "opened = Some img" "img_size img = (w, h)" "length table = 0x400"
      "mode img = P \<and> d = 8 \<and> build_color_table (getpalette img) = Inr table \<and>
         pixel_rows_P w h (getdata_P img) = Inr pixels
       \<or> mode img = RGB \<and> d = 24 \<and> table = bytes 0x400 \<and>
         pixel_rows_RGB w h (getdata_RGB img) = Inr pixels"
    and a: "assemble w h d table pixels = Inr out"
    by blast
  have out: "out = bytes 0x04 @ to_le 4 (int w) @ bytes 0x18 @ table @ to_le 4 (int h) @
      bytes 0x0C @ to_le 2 d @ bytes 0x06 @ to_le 4 10001 @ bytes 0x1C @ pixels"
    using a by (rule assemble_Inr)
  have len: "length out = 0x458 + length pixels"
    by (simp add: out length_bytes length_to_le st(3))
  have regions: "take 4 out = bytes 4"
    "take 4 (drop 0x004 out) = to_le 4 (int w)"
    "take 0x18 (drop 0x008 out) = bytes 0x18"
    "take 0x400 (drop 0x020 out) = table"
    "take 4 (drop 0x420 out) = to_le 4 (int h)"
    "take 0xC (drop 0x424 out) = bytes 0xC"
    "take 2 (drop 0x430 out) = to_le 2 d"
    "take 6 (drop 0x432 out) = bytes 6"
    "take 4 (drop 0x438 out) = to_le 4 10001"
    "take 0x1C (drop 0x43C out) = bytes 0x1C"
    "drop 0x458 out = pixels"
    by (simp_all add: out length_bytes length_to_le st(3))
  have zero: "take 4 (drop 0x448 out) = replicate 4 0" "take 4 (drop 0x440 out) = replicate 4 0"
    "take 4 (drop 0x018 out) = replicate 4 0" "take 4 (drop 0x450 out) = replicate 4 0"
    by (simp_all add: out length_bytes length_to_le st(3)) (simp_all add: bytes_def)
  have keys: "unpack_from fmt_I out 0x448 = Inr 0" "unpack_from fmt_I out 0x440 = Inr 0"
    "unpack_from fmt_I out 0x018 = Inr 0" "unpack_from fmt_I out 0x450 = Inr 0"
    by (simp_all add: unpack_from_inside len zero from_le_replicate_0)
  from st regions keys show ?thesis by blast
qed

theorem pack_layout_witness:
  "pack True (Some image_red_blue) = Inr resource_red_blue \<and>
   take 4 resource_red_blue = bytes 4 \<and>
   take 4 (drop 0x004 resource_red_blue) = to_le 4 4 \<and>
   take 0x18 (drop 0x008 resource_red_blue) = bytes 0x18 \<and>
   take 0x400 (drop 0x020 resource_red_blue) = table_red_blue \<and>
   take 4 (drop 0x420 resource_red_blue) = to_le 4 4 \<and>
   take 0xC (drop 0x424 resource_red_blue) = bytes 0xC \<and>
   take 2 (drop 0x430 resource_red_blue) = to_le 2 8 \<and>
   take 6 (drop 0x432 resource_red_blue) = bytes 6 \<and>
   take 4 (drop 0x438 resource_red_blue) = to_le 4 10001 \<and>
   take 0x1C (drop 0x43C resource_red_blue) = bytes 0x1C \<and>
   unpack_from fmt_I resource_red_blue 0x448 = Inr 0"
  using pack_layout [OF pack_red_blue] pack_red_blue build_color_table_red_blue
  by (auto simp add: image_red_blue_def)

section \<open>The round trip for RGB images and full palettes\<close>

text \<open>
  What \<open>pack\<close> returns for an image of mode \<open>RGB\<close>, or of mode \<open>P\<close> with a palette of
  exactly 256 colors, of positive size with a width that is a multiple of 4, decodes
  under the strict settings to the bitmap of the same width and height, the color table
  \<open>pack\<close> built (none for \<open>RGB\<close>) and the pixel array \<open>pack\<close> built.
\<close>

lemma collect_length: "collect xs = Inr vs \<Longrightarrow> length vs = length xs"
  using collect_Inr [THEN list_all2_lengthD, of xs vs] by simp

lemma collect_nth:
  "collect xs = Inr vs \<Longrightarrow> i < length vs \<Longrightarrow> xs ! i = Inr (vs ! i)"
  using collect_Inr [of xs vs] by (simp add: list_all2_conv_all_nth)

lemma collect_map_set:
  assumes "collect (map f xs) = Inr vs" and "v \<in> set vs"
  shows "\<exists>x \<in> set xs. f x = Inr v"
proof -
  from assms(2) obtain i where i: "i < length vs" and v: "vs ! i = v"
    by (auto simp add: in_set_conv_nth)
  from collect_length [OF assms(1)] i have ix: "i < length xs" by simp
  from collect_nth [OF assms(1) i] ix v have "f (xs ! i) = Inr v" by simp
  with ix show ?thesis by auto
qed

lemma pixel_rows_P_length:
  assumes "pixel_rows_P w h data = Inr px"
  shows "length px = w * h"
proof -
  define f where "f = (\<lambda>row_index.
     struct_pack (replicate w fmt_B) (py_slice data (int (row_index * w)) (int (row_index * w + w))))"
  from assms obtain rows where c: "collect (map f [0..<h]) = Inr rows"
    and px: "px = concat (rev rows)"
    unfolding pixel_rows_P_def and_then_Inr Let_def f_def by auto
  have "length r = w" if "r \<in> set rows" for r
  proof -
    from collect_map_set [OF c that] obtain x where "f x = Inr r" by blast
    from struct_pack_length [OF this [unfolded f_def]] show ?thesis
      by (simp add: sum_list_replicate)
  qed
  then have "length (concat (rev rows)) = w * length (rev rows)"
    by (intro length_concat_const) simp
  with collect_length [OF c] px show ?thesis by simp
qed

lemma pixel_rows_RGB_length:
  assumes "pixel_rows_RGB w h data = Inr px"
  shows "length px = 3 * w * h"
proof -
  define f where "f = (\<lambda>row_index.
     and_then (collect (map (\<lambda>pixel_index.
        and_then (py_index data (row_index * w + pixel_index)) (\<lambda>(r, g, b).
        Inr [b, g, r])) [0..<w])) (\<lambda>img_pixel_row.
     struct_pack (replicate (3 * w) fmt_B) (concat img_pixel_row)))"
  from assms obtain rows where c: "collect (map f [0..<h]) = Inr rows"
    and px: "px = concat (rev rows)"
    unfolding pixel_rows_RGB_def and_then_Inr Let_def f_def by auto
  have "length r = 3 * w" if "r \<in> set rows" for r
  proof -
    from collect_map_set [OF c that] obtain x where "f x = Inr r" by blast
    then obtain vs where "struct_pack (replicate (3 * w) fmt_B) vs = Inr r"
      unfolding f_def and_then_Inr by blast
    from struct_pack_length [OF this] show ?thesis
      by (simp add: sum_list_replicate)
  qed
  then have "length (concat (rev rows)) = 3 * w * length (rev rows)"
    by (intro length_concat_const) simp
  with collect_length [OF c] px show ?thesis by simp
qed


lemma concat_chunks_take:
  "n * k \<le> length xs \<Longrightarrow>
   concat (map (\<lambda>i. take k (drop (i * k) xs)) [0..<n]) = take (n * k) xs"
proof (induction n)
  case 0
  show ?case by simp
next
  case (Suc n)
  then have "n * k \<le> length xs" by simp
  with Suc.IH have IH: "concat (map (\<lambda>i. take k (drop (i * k) xs)) [0..<n]) = take (n * k) xs" .
  have "Suc n * k = n * k + k" by simp
  then have "take (Suc n * k) xs = take (n * k) xs @ take k (drop (n * k) xs)"
    by (simp only: take_add)
  with IH show ?case by simp
qed


lemma concat_chunks:
  "length xs = n * k \<Longrightarrow> concat (map (\<lambda>i. take k (drop (i * k) xs)) [0..<n]) = xs"
  using concat_chunks_take [of n k xs] by simp

lemma decode_to_le_signed:
  "0 \<le> v \<Longrightarrow> v < 2 ^ 31 \<Longrightarrow> decode_field fmt_i (to_le 4 v) = v"
  by (simp add: from_le_to_le)

lemma unpack_canonical:
  fixes W H d :: int
  assumes table: "length table = 0x400"
    and W: "0 < W" "W < 2 ^ 31" and H: "0 < H" "H < 2 ^ 31"
    and d: "d = 8 \<or> d = 24"
    and rows: "length pixels = nat H * nat (d div 8 * W)"
    and pad: "(- (d div 8 * W)) mod 4 = 0"
    and alpha: "d = 8 \<Longrightarrow> validate_alpha (slice_3_4 table) = Inr ()"
    and L: "L = layout W 0 table H d 10001 0 0 0 pixels"
  shows "unpack L True False = build_bitmap W H d (if d = 8 then table else []) 0 pixels"
proof -
  note f = layout_fields [OF table L]
  have len: "length L = 0x458 + length pixels"
    by (simp add: L length_layout table)
  then have long: "\<not> length L < 0x458" by simp
  have id: "identify L = Inr (0, 0)"
    by (simp add: identify_long [OF long] f from_le_to_le)
  have dim: "dimensions L 0 True = Inr (W, H)"
    using W H len
    by (simp add: dimensions_long [OF long] f from_le_to_le unpack_from_inside and_then_def)
  have dep: "color_depth L 0 True = Inr d"
    using d by (auto simp add: color_depth_long [OF long] f from_le_to_le)
  have ct: "color_table L d False = Inr (if d = 8 then table else [], 0)"
    using d by (auto simp add: color_table_def color_table_slice [OF long] f)
  have va: "validate_alpha (slice_3_4 (if d = 8 then table else [])) = Inr ()"
    using alpha by simp
  define rs where "rs = d div 8 * W"
  have rs: "0 \<le> rs" using d W by (auto simp add: rs_def)
  have "rs * \<bar>H\<bar> = int (length pixels)"
    using rows rs H by (simp add: rs_def nat_mult_distrib)
  then have "\<not> int (length L) < 0x458 + 0 + d div 8 * \<bar>W\<bar> * \<bar>H\<bar>"
    using len W by (simp add: rs_def)
  then obtain pix where pa: "pixel_array L 0 d W H = Inr pix"
    by (simp add: pixel_array_def Let_def)
  have d0: "0 \<le> d" using d by auto
  from pixel_array_rows [of 0 d L W H pix, OF _ d0 pa]
  have "pix = concat (map (\<lambda>i. take (nat rs) (drop (0x458 + i * nat rs) L) @
      replicate (nat ((- rs) mod 4)) 0) [0..<nat \<bar>H\<bar>])"
    using W by (simp add: rs_def)
  also have "\<dots> = concat (map (\<lambda>i. take (nat rs) (drop (i * nat rs) pixels)) [0..<nat H])"
  proof -
    have "drop (0x458 + i * nat rs) L = drop (i * nat rs) pixels" for i
      using f(10) by (simp add: add.commute [of 1112] flip: drop_drop)
    then show ?thesis
      using pad H by (simp add: rs_def)
  qed
  also have "\<dots> = pixels"
    using rows by (intro concat_chunks) (simp add: rs_def)
  finally have "pixel_array L 0 d W H = Inr pixels"
    using pa by simp
  from unpack_stages [OF id dim dep ct va this] show ?thesis .
qed

lemma assemble_ranges:
  assumes "assemble w h d pal px = Inr out"
  shows "int w < 2 ^ 31 \<and> int h < 2 ^ 31"
  using assms
  by (auto simp add: assemble_def and_then_def split: if_splits)

lemma slice_3_4_concat_entries:
  "\<forall>e \<in> set es. \<exists>a b c. e = [a, b, c, 0] \<Longrightarrow> set (slice_3_4 (concat es)) \<subseteq> {0}"
  by (induction es) auto

lemma color_entry_shape:
  assumes "and_then (py_index pil_palette (color_offset + 2)) (\<lambda>c2.
        and_then (py_index pil_palette (color_offset + 1)) (\<lambda>c1.
        and_then (py_index pil_palette color_offset) (\<lambda>c0.
        struct_pack [fmt_B, fmt_B, fmt_B, fmt_B] [c2, c1, c0, 0x00]))) = Inr e"
  shows "\<exists>a b c. e = [a, b, c, 0]"
proof -
  from assms obtain c2 c1 c0 where
    "struct_pack [fmt_B, fmt_B, fmt_B, fmt_B] [c2, c1, c0, 0x00] = Inr e"
    unfolding and_then_Inr by blast
  then show ?thesis
    by (auto simp add: and_then_def split: if_splits)
qed

lemma full_palette_alpha:
  assumes "build_color_table pil_palette = Inr table" and "length pil_palette = 3 * 256"
  shows "validate_alpha (slice_3_4 table) = Inr ()"
proof -
  define f where "f = (\<lambda>color_offset.
        and_then (py_index pil_palette (color_offset + 2)) (\<lambda>c2.
        and_then (py_index pil_palette (color_offset + 1)) (\<lambda>c1.
        and_then (py_index pil_palette color_offset) (\<lambda>c0.
        struct_pack [fmt_B, fmt_B, fmt_B, fmt_B] [c2, c1, c0, 0x00]))))"
  define offsets where "offsets = range_step_3 (length pil_palette)"
  from assms(1) obtain entries where
    c: "collect (map f offsets) = Inr entries"
    and t: "table = ljust (concat entries) 0x400"
    unfolding build_color_table_def and_then_Inr f_def offsets_def by auto
  have shape: "\<exists>a b c. e = [a, b, c, 0]" if "e \<in> set entries" for e
  proof -
    from collect_map_set [OF c that] obtain x where "f x = Inr e" by blast
    then show ?thesis unfolding f_def by (rule color_entry_shape)
  qed
  have "\<forall>e \<in> set entries. length e = 4"
  proof
    fix e assume "e \<in> set entries"
    from shape [OF this] show "length e = 4" by auto
  qed
  then have "length (concat entries) = 4 * length entries"
    by (rule length_concat_const)
  moreover have "length entries = 256"
    using collect_length [OF c] assms(2) by (simp add: offsets_def range_step_3_def)
  ultimately have "table = concat entries"
    using t by (simp add: ljust_def)
  moreover have "set (slice_3_4 (concat entries)) \<subseteq> {0}"
    using shape by (intro slice_3_4_concat_entries) blast
  ultimately show ?thesis
    by (simp add: validate_alpha_zeros)
qed

lemma build_bitmap_value:
  assumes "14 + 40 + int (length ct) + int (length pix) < 2 ^ 32"
    and "\<bar>w\<bar> < 2 ^ 31" and "\<bar>h\<bar> < 2 ^ 31" and "0 \<le> d" and "d < 2 ^ 16"
    and "0 \<le> n" and "n < 2 ^ 32"
  shows "build_bitmap w h d ct n pix =
     Inr ([0x42, 0x4D] @ to_le 4 (14 + 40 + int (length ct) + int (length pix)) @
           to_le 2 0 @ to_le 2 0 @ to_le 4 (14 + 40 + int (length ct)) @
           to_le 4 40 @ to_le 4 \<bar>w\<bar> @ to_le 4 \<bar>h\<bar> @ to_le 2 1 @ to_le 2 d @ to_le 4 0 @
           to_le 4 (int (length pix)) @ to_le 4 0 @ to_le 4 0 @ to_le 4 n @ to_le 4 0 @
           ct @ pix)"
proof -
  from build_bitmap_fits [OF assms] obtain out where out: "build_bitmap w h d ct n pix = Inr out"
    by blast
  from build_bitmap_Inr [OF out] out show ?thesis by simp
qed

lemma roundtrip_rgb_or_full_palette:
  assumes pk: "pack avail (Some img) = Inr r"
    and size: "img_size img = (w, h)" and w: "0 < w" "4 dvd w" and h: "0 < h"
    and palette: "mode img = P \<Longrightarrow> length (getpalette img) = 3 * 256"
    and fits: "14 + 40 + 1024 + 3 * int w * int h < 2 ^ 32"
  shows "\<exists>d table pixels.
      (mode img = P \<and> d = 8 \<and> build_color_table (getpalette img) = Inr table \<and>
         pixel_rows_P w h (getdata_P img) = Inr pixels
       \<or> mode img = RGB \<and> d = 24 \<and> table = [] \<and>
         pixel_rows_RGB w h (getdata_RGB img) = Inr pixels) \<and>
      unpack r True False =
        Inr ([0x42, 0x4D] @ to_le 4 (14 + 40 + int (length table) + int (length pixels)) @
             to_le 2 0 @ to_le 2 0 @ to_le 4 (14 + 40 + int (length table)) @
             to_le 4 40 @ to_le 4 (int w) @ to_le 4 (int h) @ to_le 2 1 @ to_le 2 d @ to_le 4 0 @
             to_le 4 (int (length pixels)) @ to_le 4 0 @ to_le 4 0 @ to_le 4 0 @ to_le 4 0 @
             table @ pixels)"
proof -
  from pack_Inr [OF pk] size obtain d table pixels where
    tl: "length table = 0x400"
    and st: "mode img = P \<and> d = 8 \<and> build_color_table (getpalette img) = Inr table \<and>
         pixel_rows_P w h (getdata_P img) = Inr pixels
       \<or> mode img = RGB \<and> d = 24 \<and> table = bytes 0x400 \<and>
         pixel_rows_RGB w h (getdata_RGB img) = Inr pixels"
    and a: "assemble w h d table pixels = Inr r"
    by auto
  from assemble_ranges [OF a] have wr: "int w < 2 ^ 31" and hr: "int h < 2 ^ 31" by simp_all
  have d: "d = 8 \<or> d = 24" using st by auto
  then have d': "0 \<le> d" "d < 2 ^ 16" by auto
  have r: "r = layout (int w) 0 table (int h) d 10001 0 0 0 pixels"
    using a assemble_layout [OF wr hr d', of table pixels] by simp
  have lp: "length pixels = h * nat (d div 8 * int w)"
  proof (cases "d = 8")
    case True
    with st have "pixel_rows_P w h (getdata_P img) = Inr pixels" by auto
    from pixel_rows_P_length [OF this] True show ?thesis by simp
  next
    case False
    with st have "d = 24" "pixel_rows_RGB w h (getdata_RGB img) = Inr pixels" by auto
    from pixel_rows_RGB_length [OF this(2)] this(1) show ?thesis
      by (simp add: nat_mult_distrib)
  qed
  have "(4::int) dvd int w"
    using w(2) by presburger
  then have "4 dvd d div 8 * int w" by (rule dvd_mult)
  then have "4 dvd - (d div 8 * int w)" by simp
  then have pad: "(- (d div 8 * int w)) mod 4 = 0"
    by (simp only: mod_eq_0_iff_dvd)
  have alpha: "validate_alpha (slice_3_4 table) = Inr ()" if "d = 8"
    using st that palette by (auto intro: full_palette_alpha)
  have u: "unpack r True False = build_bitmap (int w) (int h) d (if d = 8 then table else []) 0 pixels"
    using unpack_canonical [OF tl _ wr _ hr d _ pad alpha r] w h lp by simp
  have size_le: "int (length pixels) \<le> 3 * int w * int h"
  proof -
    have "nat (d div 8 * int w) \<le> 3 * w"
      using d by (auto simp add: nat_mult_distrib)
    then have "h * nat (d div 8 * int w) \<le> h * (3 * w)"
      by (rule mult_le_mono2)
    with lp have "length pixels \<le> 3 * w * h"
      by (simp add: mult.commute)
    then have "int (length pixels) \<le> int (3 * w * h)" by (simp only: of_nat_le_iff)
    then show ?thesis by simp
  qed
  have tot: "int (length pixels) < 4294966218"
  proof -
    define m where "m = int w * int h"
    have "3 * int w * int h = 3 * m" by (simp add: m_def)
    with fits size_le have "14 + 40 + 1024 + 3 * m < 2 ^ 32" "int (length pixels) \<le> 3 * m"
      by simp_all
    then show ?thesis by simp
  qed
  show ?thesis
  proof (cases "d = 8")
    case True
    with st have p: "mode img = P" "build_color_table (getpalette img) = Inr table"
      "pixel_rows_P w h (getdata_P img) = Inr pixels" by auto
    have "build_bitmap (int w) (int h) 8 table 0 pixels = Inr ([0x42, 0x4D] @
        to_le 4 (14 + 40 + int (length table) + int (length pixels)) @
        to_le 2 0 @ to_le 2 0 @ to_le 4 (14 + 40 + int (length table)) @
        to_le 4 40 @ to_le 4 \<bar>int w\<bar> @ to_le 4 \<bar>int h\<bar> @ to_le 2 1 @ to_le 2 8 @ to_le 4 0 @
        to_le 4 (int (length pixels)) @ to_le 4 0 @ to_le 4 0 @ to_le 4 0 @ to_le 4 0 @
        table @ pixels)"
      using tot tl wr hr by (intro build_bitmap_value) simp_all
    with u True p show ?thesis by auto
  next
    case False
    with d st have p: "d = 24" "mode img = RGB"
      "pixel_rows_RGB w h (getdata_RGB img) = Inr pixels" by auto
    have "build_bitmap (int w) (int h) 24 [] 0 pixels = Inr ([0x42, 0x4D] @
        to_le 4 (14 + 40 + int (length ([]::byte list)) + int (length pixels)) @
        to_le 2 0 @ to_le 2 0 @ to_le 4 (14 + 40 + int (length ([]::byte list))) @
        to_le 4 40 @ to_le 4 \<bar>int w\<bar> @ to_le 4 \<bar>int h\<bar> @ to_le 2 1 @ to_le 2 24 @ to_le 4 0 @
        to_le 4 (int (length pixels)) @ to_le 4 0 @ to_le 4 0 @ to_le 4 0 @ to_le 4 0 @
        [] @ pixels)"
      using tot wr hr by (intro build_bitmap_value) simp_all
    with u p show ?thesis by auto
  qed
qed

end
